theory Spec2Isabelle
  imports Complex_Main "HOL-Library.Sublist"
begin

section \<open>Label designer: data model\<close>

text \<open>
  The page component \<^verbatim>\<open>src/pages/Index.tsx\<close> keeps its whole state in React state
  variables and changes it only inside event handlers. The embedding below models
  the state variables as one record and every handler as a function from the state
  of the render in which the handler was created to the state after the handler ran.

  Numbers. The program computes with IEEE doubles. The geometry of an element
  (\<^verbatim>\<open>x\<close>, \<^verbatim>\<open>y\<close>, \<^verbatim>\<open>width\<close>, \<^verbatim>\<open>height\<close>) is written only by \<^verbatim>\<open>addElement\<close>
  (constants) and by the pointer handlers (sums, differences, halves, \<^verbatim>\<open>Math.max\<close>,
  \<^verbatim>\<open>Math.min\<close> of pointer coordinates), so it is always finite and is modelled by
  \<open>real\<close>. The pointer-move handler is given twice: \<open>handleMouseMove\<close> computes with
  exact arithmetic, \<open>handleMouseMoveRounded\<close> takes the rounding of the result of
  every arithmetic operation as a parameter and is the handler in double arithmetic
  when that parameter is \<open>roundToDouble\<close>. The fields written from text inputs
  (\<^verbatim>\<open>fontSize\<close> and the three fields of the label configuration) can hold any
  double, so they have the type \<open>jsnum\<close>: \<^verbatim>\<open>NaN\<close>, the two infinities, the negative
  zero and the finite numbers, \<open>Num 0\<close> being the positive zero. The arithmetic on
  \<open>jsnum\<close> rounds every result to a double.
\<close>

datatype ElementType = Text | Barcode | Price

datatype jsnum = NaN | PosInf | NegInf | NegZero | Num real

record LabelElement =
  el_id :: string
  el_type :: ElementType
  el_label :: string
  el_x :: real
  el_y :: real
  el_width :: real
  el_height :: real
  el_fontSize :: jsnum
  el_color :: string
  el_value :: string

record LabelConfig =
  cfg_width :: jsnum
  cfg_height :: jsnum
  cfg_quantity :: jsnum

text \<open>
  \<^verbatim>\<open>Partial<LabelElement>\<close>: every field of an element, each of them optional.
  \<open>None\<close> is an absent key.
\<close>

record ElementUpdates =
  up_id :: "string option"
  up_type :: "ElementType option"
  up_label :: "string option"
  up_x :: "real option"
  up_y :: "real option"
  up_width :: "real option"
  up_height :: "real option"
  up_fontSize :: "jsnum option"
  up_color :: "string option"
  up_value :: "string option"

definition no_updates :: ElementUpdates where
  "no_updates =
     \<lparr>up_id = None, up_type = None, up_label = None, up_x = None, up_y = None,
      up_width = None, up_height = None, up_fontSize = None, up_color = None,
      up_value = None\<rparr>"

text \<open>The value of the state variable \<^verbatim>\<open>resizingElement\<close> when it is not null.\<close>

record ResizeState =
  rs_id :: string
  rs_handle :: string

record AppState =
  elements :: "LabelElement list"
  selectedElement :: "string option"
  draggedElement :: "string option"
  resizingElement :: "ResizeState option"
  labelConfig :: LabelConfig
  showPreview :: bool

definition initialState :: AppState where
  "initialState =
     \<lparr>elements = [], selectedElement = None, draggedElement = None,
      resizingElement = None,
      labelConfig = \<lparr>cfg_width = Num 50, cfg_height = Num 30, cfg_quantity = Num 10\<rparr>,
      showPreview = False\<rparr>"

section \<open>Double arithmetic\<close>

text \<open>
  A finite double is \<open>m * 2^e\<close> for integers \<open>m\<close> and \<open>e\<close> with \<open>\<bar>m\<bar> < 2^53\<close> and
  \<open>-1074 \<le> e \<le> 971\<close>. The result of an arithmetic operation is the double nearest
  to the exact result, a tie going to the double with the even \<open>m\<close>.

  \<open>rne y\<close> is the integer nearest to \<open>y\<close>, ties to even. \<open>gridExponent x\<close> is the
  exponent \<open>e\<close> of the doubles around \<open>x\<close>: for \<open>2^k \<le> \<bar>x\<bar> < 2^(k+1)\<close> they are
  \<open>2^(k-52)\<close> apart, and never less than \<open>2^(-1074)\<close>. \<open>roundToDouble x\<close> is the
  nearest number on that grid, that is the nearest double as long as the result is
  below \<open>2^1024\<close> in magnitude; a result of \<open>2^1024\<close> or more is an overflow.

  \<open>signedDouble negative magnitude\<close> is the double for a sign and a magnitude: an
  infinity on overflow, a zero with the given sign when the magnitude rounds to zero.
\<close>

definition rne :: "real \<Rightarrow> int" where
  "rne y =
     (let f = \<lfloor>y\<rfloor>
      in if y - of_int f < 1 / 2 then f
         else if 1 / 2 < y - of_int f then f + 1
         else if even f then f else f + 1)"

definition gridExponent :: "real \<Rightarrow> int" where
  "gridExponent x = max (\<lfloor>log 2 \<bar>x\<bar>\<rfloor> - 52) (- 1074)"

definition roundToDouble :: "real \<Rightarrow> real" where
  "roundToDouble x =
     (if x = 0 then 0
      else of_int (rne (x / 2 powi gridExponent x)) * 2 powi gridExponent x)"

definition signedInfinity :: "bool \<Rightarrow> jsnum" where
  "signedInfinity negative = (if negative then NegInf else PosInf)"

definition signedZero :: "bool \<Rightarrow> jsnum" where
  "signedZero negative = (if negative then NegZero else Num 0)"

definition signedDouble :: "bool \<Rightarrow> real \<Rightarrow> jsnum" where
  "signedDouble negative magnitude =
     (let r = roundToDouble magnitude
      in if 2 ^ 1024 \<le> r then signedInfinity negative
         else if r = 0 then signedZero negative
         else Num (if negative then - r else r))"

text \<open>
  The sign bit of a number, and the value of a finite one (both zeros have the
  value 0).
\<close>

definition signBit :: "jsnum \<Rightarrow> bool" where
  "signBit a =
     (case a of NaN \<Rightarrow> False | PosInf \<Rightarrow> False | NegInf \<Rightarrow> True | NegZero \<Rightarrow> True
      | Num x \<Rightarrow> x < 0)"

definition isInfinite :: "jsnum \<Rightarrow> bool" where
  "isInfinite a \<longleftrightarrow> a = PosInf \<or> a = NegInf"

definition isZero :: "jsnum \<Rightarrow> bool" where
  "isZero a \<longleftrightarrow> a = Num 0 \<or> a = NegZero"

definition valueOf :: "jsnum \<Rightarrow> real" where
  "valueOf a = (case a of Num x \<Rightarrow> x | _ \<Rightarrow> 0)"

text \<open>
  The operators \<^verbatim>\<open>*\<close>, \<^verbatim>\<open>/\<close> and \<^verbatim>\<open>+\<close> and the function \<^verbatim>\<open>Math.ceil\<close>. \<^verbatim>\<open>NaN\<close> is
  absorbing. An infinity times a zero, an infinity divided by an infinity, a zero
  divided by a zero and the sum of the two infinities are \<^verbatim>\<open>NaN\<close>. The sign of a
  product or a quotient is the exclusive or of the signs of the operands; a finite
  number other than zero divided by a zero is an infinity. A sum that is exactly
  zero is the positive zero unless both summands are negative zeros.
\<close>

definition jmul :: "jsnum \<Rightarrow> jsnum \<Rightarrow> jsnum" where
  "jmul a b =
     (if a = NaN \<or> b = NaN then NaN
      else if isInfinite a \<or> isInfinite b then
        (if isZero a \<or> isZero b then NaN else signedInfinity (signBit a \<noteq> signBit b))
      else signedDouble (signBit a \<noteq> signBit b) (\<bar>valueOf a\<bar> * \<bar>valueOf b\<bar>))"

definition jdiv :: "jsnum \<Rightarrow> jsnum \<Rightarrow> jsnum" where
  "jdiv a b =
     (if a = NaN \<or> b = NaN then NaN
      else if isInfinite a then
        (if isInfinite b then NaN else signedInfinity (signBit a \<noteq> signBit b))
      else if isInfinite b then signedZero (signBit a \<noteq> signBit b)
      else if isZero b then
        (if isZero a then NaN else signedInfinity (signBit a \<noteq> signBit b))
      else signedDouble (signBit a \<noteq> signBit b) (\<bar>valueOf a\<bar> / \<bar>valueOf b\<bar>))"

definition jadd :: "jsnum \<Rightarrow> jsnum \<Rightarrow> jsnum" where
  "jadd a b =
     (if a = NaN \<or> b = NaN then NaN
      else if isInfinite a then (if isInfinite b \<and> a \<noteq> b then NaN else a)
      else if isInfinite b then b
      else if valueOf a + valueOf b = 0 then signedZero (a = NegZero \<and> b = NegZero)
      else signedDouble (valueOf a + valueOf b < 0) \<bar>valueOf a + valueOf b\<bar>)"

definition jceil :: "jsnum \<Rightarrow> jsnum" where
  "jceil a =
     (case a of
        Num x \<Rightarrow> if - 1 < x \<and> x < 0 then NegZero else Num (of_int \<lceil>x\<rceil>)
      | _ \<Rightarrow> a)"

section \<open>Element store\<close>

subsection \<open>Identifiers\<close>

text \<open>
  An identifier is the template string \<^verbatim>\<open>`${type}-${Date.now()}`\<close>: the name of the
  type, a hyphen, and the clock reading (milliseconds since the epoch, a natural
  number) in decimal. The clock reading is an input of \<open>addElement\<close>.
\<close>

definition typeName :: "ElementType \<Rightarrow> string" where
  "typeName t = (case t of Text \<Rightarrow> ''text'' | Barcode \<Rightarrow> ''barcode'' | Price \<Rightarrow> ''price'')"

definition digitChar :: "nat \<Rightarrow> char" where
  "digitChar d = char_of (48 + d)"

fun decimal :: "nat \<Rightarrow> string" where
  "decimal n = (if n < 10 then [digitChar n] else decimal (n div 10) @ [digitChar (n mod 10)])"

declare decimal.simps [simp del]

definition newId :: "ElementType \<Rightarrow> nat \<Rightarrow> string" where
  "newId t now = typeName t @ ''-'' @ decimal now"

subsection \<open>addElement, updateElement, deleteElement\<close>

text \<open>
  The labels of the price and barcode elements contain a letter outside ASCII
  (c with cedilla, o with acute accent); it is given by its two UTF-8 bytes.
\<close>

definition newElement :: "ElementType \<Rightarrow> nat \<Rightarrow> LabelElement" where
  "newElement t now =
     \<lparr>el_id = newId t now,
      el_type = t,
      el_label = (if t = Text then ''Nome''
                  else if t = Price then ''Pre'' @ [CHR 0xC3, CHR 0xA7] @ ''o''
                  else ''C'' @ [CHR 0xC3, CHR 0xB3] @ ''digo''),
      el_x = 10,
      el_y = 10,
      el_width = (if t = Barcode then 120 else 100),
      el_height = (if t = Barcode then 40 else 30),
      el_fontSize = (if t = Barcode then Num 12 else Num 16),
      el_color = ''#000000'',
      el_value = (if t = Price then ''R$ 0,00''
                  else if t = Barcode then ''123456789'' else ''Texto'')\<rparr>"

definition addElement :: "ElementType \<Rightarrow> nat \<Rightarrow> AppState \<Rightarrow> AppState" where
  "addElement t now s =
     s\<lparr>elements := elements s @ [newElement t now],
       selectedElement := Some (el_id (newElement t now))\<rparr>"

text \<open>The object spread \<^verbatim>\<open>{ ...el, ...updates }\<close>: a key of the updates wins.\<close>

definition spread :: "LabelElement \<Rightarrow> ElementUpdates \<Rightarrow> LabelElement" where
  "spread el u =
     \<lparr>el_id = (case up_id u of None \<Rightarrow> el_id el | Some v \<Rightarrow> v),
      el_type = (case up_type u of None \<Rightarrow> el_type el | Some v \<Rightarrow> v),
      el_label = (case up_label u of None \<Rightarrow> el_label el | Some v \<Rightarrow> v),
      el_x = (case up_x u of None \<Rightarrow> el_x el | Some v \<Rightarrow> v),
      el_y = (case up_y u of None \<Rightarrow> el_y el | Some v \<Rightarrow> v),
      el_width = (case up_width u of None \<Rightarrow> el_width el | Some v \<Rightarrow> v),
      el_height = (case up_height u of None \<Rightarrow> el_height el | Some v \<Rightarrow> v),
      el_fontSize = (case up_fontSize u of None \<Rightarrow> el_fontSize el | Some v \<Rightarrow> v),
      el_color = (case up_color u of None \<Rightarrow> el_color el | Some v \<Rightarrow> v),
      el_value = (case up_value u of None \<Rightarrow> el_value el | Some v \<Rightarrow> v)\<rparr>"

text \<open>
  \<^verbatim>\<open>updateElement\<close> passes \<^verbatim>\<open>elements.map(...)\<close> to \<^verbatim>\<open>setElements\<close>, where
  \<^verbatim>\<open>elements\<close> is the list of the render that created the handler.
  \<open>updatedElements\<close> is that argument, \<open>updateElement\<close> the resulting state.
\<close>

definition updatedElements :: "string \<Rightarrow> ElementUpdates \<Rightarrow> LabelElement list \<Rightarrow> LabelElement list" where
  "updatedElements i u els = map (\<lambda>el. if el_id el = i then spread el u else el) els"

definition updateElement :: "string \<Rightarrow> ElementUpdates \<Rightarrow> AppState \<Rightarrow> AppState" where
  "updateElement i u s = s\<lparr>elements := updatedElements i u (elements s)\<rparr>"

definition deleteElement :: "string \<Rightarrow> AppState \<Rightarrow> AppState" where
  "deleteElement i s =
     s\<lparr>elements := filter (\<lambda>el. el_id el \<noteq> i) (elements s),
       selectedElement := (if selectedElement s = Some i then None else selectedElement s)\<rparr>"

section \<open>Canvas interaction\<close>

text \<open>
  A pointer event on the canvas: the client coordinates of the pointer and the
  top-left corner of the bounding rectangle of the canvas (\<^verbatim>\<open>e.currentTarget\<close>).
\<close>

record MouseEvent =
  clientX :: real
  clientY :: real
  rectLeft :: real
  rectTop :: real

definition handleMouseDown :: "string \<Rightarrow> AppState \<Rightarrow> AppState" where
  "handleMouseDown i s = s\<lparr>draggedElement := Some i, selectedElement := Some i\<rparr>"

definition handleMouseUp :: "AppState \<Rightarrow> AppState" where
  "handleMouseUp s = s\<lparr>draggedElement := None, resizingElement := None\<rparr>"

definition handleResizeStart :: "string \<Rightarrow> string \<Rightarrow> AppState \<Rightarrow> AppState" where
  "handleResizeStart i h s =
     s\<lparr>resizingElement := Some \<lparr>rs_id = i, rs_handle = h\<rparr>, selectedElement := Some i\<rparr>"

text \<open>\<^verbatim>\<open>elements.find((el) => el.id === i)\<close>: the first element with that id.\<close>

definition findElement :: "string \<Rightarrow> LabelElement list \<Rightarrow> LabelElement option" where
  "findElement i els = find (\<lambda>el. el_id el = i) els"

text \<open>
  The \<^verbatim>\<open>switch\<close> of the resize branch: new width, height, x and y. A handle that is
  none of the four corner names leaves the geometry as it is.
\<close>

definition resizeGeometry :: "string \<Rightarrow> real \<Rightarrow> real \<Rightarrow> LabelElement \<Rightarrow> real \<times> real \<times> real \<times> real" where
  "resizeGeometry h mouseX mouseY element =
     (if h = ''se'' then
        (max 30 (mouseX - el_x element), max 20 (mouseY - el_y element),
         el_x element, el_y element)
      else if h = ''sw'' then
        (max 30 (el_x element + el_width element - mouseX), max 20 (mouseY - el_y element),
         min mouseX (el_x element + el_width element - 30), el_y element)
      else if h = ''ne'' then
        (max 30 (mouseX - el_x element), max 20 (el_y element + el_height element - mouseY),
         el_x element, min mouseY (el_y element + el_height element - 20))
      else if h = ''nw'' then
        (max 30 (el_x element + el_width element - mouseX),
         max 20 (el_y element + el_height element - mouseY),
         min mouseX (el_x element + el_width element - 30),
         min mouseY (el_y element + el_height element - 20))
      else (el_width element, el_height element, el_x element, el_y element))"

text \<open>
  \<^verbatim>\<open>handleMouseMove\<close> has two \<^verbatim>\<open>if\<close> blocks in sequence. Each can call
  \<^verbatim>\<open>updateElement\<close> once, that is \<^verbatim>\<open>setElements\<close> with a list computed from the
  \<^verbatim>\<open>elements\<close> of the current render, and each can leave the handler with \<^verbatim>\<open>return\<close>.

  \<open>dragBranch\<close> is the first block: \<open>None\<close> when it returns from the handler, otherwise
  the arguments of its \<^verbatim>\<open>setElements\<close> calls. \<^verbatim>\<open>if (draggedElement)\<close> is false for null
  and for the empty string. \<open>resizeBranch\<close> is the second block.
  \<open>setElementsCalls\<close> lists the arguments of all calls of one run of the handler in
  order; the state after the handler holds the argument of the last call.
\<close>

definition dragBranch :: "AppState \<Rightarrow> MouseEvent \<Rightarrow> LabelElement list list option" where
  "dragBranch s e =
     (case draggedElement s of
        None \<Rightarrow> Some []
      | Some d \<Rightarrow>
          if d = [] then Some []
          else (case findElement d (elements s) of
                  None \<Rightarrow> None
                | Some element \<Rightarrow>
                    let x = clientX e - rectLeft e - el_width element / 2;
                        y = clientY e - rectTop e - el_height element / 2
                    in Some [updatedElements d
                               (no_updates\<lparr>up_x := Some (max 0 x), up_y := Some (max 0 y)\<rparr>)
                               (elements s)]))"

definition resizeBranch :: "AppState \<Rightarrow> MouseEvent \<Rightarrow> LabelElement list list" where
  "resizeBranch s e =
     (case resizingElement s of
        None \<Rightarrow> []
      | Some r \<Rightarrow>
          (case findElement (rs_id r) (elements s) of
             None \<Rightarrow> []
           | Some element \<Rightarrow>
               let mouseX = clientX e - rectLeft e;
                   mouseY = clientY e - rectTop e
               in (case resizeGeometry (rs_handle r) mouseX mouseY element of
                     (newWidth, newHeight, newX, newY) \<Rightarrow>
                       [updatedElements (rs_id r)
                          (no_updates\<lparr>up_width := Some newWidth, up_height := Some newHeight,
                                      up_x := Some newX, up_y := Some newY\<rparr>)
                          (elements s)])))"

definition setElementsCalls :: "AppState \<Rightarrow> MouseEvent \<Rightarrow> LabelElement list list" where
  "setElementsCalls s e =
     (case dragBranch s e of None \<Rightarrow> [] | Some calls \<Rightarrow> calls @ resizeBranch s e)"

definition handleMouseMove :: "MouseEvent \<Rightarrow> AppState \<Rightarrow> AppState" where
  "handleMouseMove e s =
     (case setElementsCalls s e of [] \<Rightarrow> s | c # cs \<Rightarrow> s\<lparr>elements := last (c # cs)\<rparr>)"

subsection \<open>The pointer-move handler in rounded arithmetic\<close>

text \<open>
  The same handler, with every arithmetic operation written as the source has it,
  left to right, and the result of each operation rounded by \<open>rnd\<close>:
  \<^verbatim>\<open>element.x + element.width - mouseX\<close> is \<open>rnd (rnd (x + width) - mouseX)\<close>, and
  \<^verbatim>\<open>e.clientX - rect.left - element.width / 2\<close> is
  \<open>rnd (rnd (clientX - left) - rnd (width / 2))\<close>. \<^verbatim>\<open>Math.max\<close> and \<^verbatim>\<open>Math.min\<close>
  return one of their arguments and do not round. With \<open>roundToDouble\<close> for \<open>rnd\<close>
  this is the handler in double arithmetic (the coordinates of a pointer event are
  far from the overflow threshold); with the identity for \<open>rnd\<close> it is
  \<open>handleMouseMove\<close>. \<open>roundingError rnd v\<close> is the distance between \<open>v\<close> and the
  number it is rounded to.
\<close>

definition resizeGeometryRounded ::
  "(real \<Rightarrow> real) \<Rightarrow> string \<Rightarrow> real \<Rightarrow> real \<Rightarrow> LabelElement \<Rightarrow> real \<times> real \<times> real \<times> real" where
  "resizeGeometryRounded rnd h mouseX mouseY element =
     (if h = ''se'' then
        (max 30 (rnd (mouseX - el_x element)), max 20 (rnd (mouseY - el_y element)),
         el_x element, el_y element)
      else if h = ''sw'' then
        (max 30 (rnd (rnd (el_x element + el_width element) - mouseX)),
         max 20 (rnd (mouseY - el_y element)),
         min mouseX (rnd (rnd (el_x element + el_width element) - 30)), el_y element)
      else if h = ''ne'' then
        (max 30 (rnd (mouseX - el_x element)),
         max 20 (rnd (rnd (el_y element + el_height element) - mouseY)),
         el_x element, min mouseY (rnd (rnd (el_y element + el_height element) - 20)))
      else if h = ''nw'' then
        (max 30 (rnd (rnd (el_x element + el_width element) - mouseX)),
         max 20 (rnd (rnd (el_y element + el_height element) - mouseY)),
         min mouseX (rnd (rnd (el_x element + el_width element) - 30)),
         min mouseY (rnd (rnd (el_y element + el_height element) - 20)))
      else (el_width element, el_height element, el_x element, el_y element))"

definition dragBranchRounded ::
  "(real \<Rightarrow> real) \<Rightarrow> AppState \<Rightarrow> MouseEvent \<Rightarrow> LabelElement list list option" where
  "dragBranchRounded rnd s e =
     (case draggedElement s of
        None \<Rightarrow> Some []
      | Some d \<Rightarrow>
          if d = [] then Some []
          else (case findElement d (elements s) of
                  None \<Rightarrow> None
                | Some element \<Rightarrow>
                    let x = rnd (rnd (clientX e - rectLeft e) - rnd (el_width element / 2));
                        y = rnd (rnd (clientY e - rectTop e) - rnd (el_height element / 2))
                    in Some [updatedElements d
                               (no_updates\<lparr>up_x := Some (max 0 x), up_y := Some (max 0 y)\<rparr>)
                               (elements s)]))"

definition resizeBranchRounded ::
  "(real \<Rightarrow> real) \<Rightarrow> AppState \<Rightarrow> MouseEvent \<Rightarrow> LabelElement list list" where
  "resizeBranchRounded rnd s e =
     (case resizingElement s of
        None \<Rightarrow> []
      | Some r \<Rightarrow>
          (case findElement (rs_id r) (elements s) of
             None \<Rightarrow> []
           | Some element \<Rightarrow>
               let mouseX = rnd (clientX e - rectLeft e);
                   mouseY = rnd (clientY e - rectTop e)
               in (case resizeGeometryRounded rnd (rs_handle r) mouseX mouseY element of
                     (newWidth, newHeight, newX, newY) \<Rightarrow>
                       [updatedElements (rs_id r)
                          (no_updates\<lparr>up_width := Some newWidth, up_height := Some newHeight,
                                      up_x := Some newX, up_y := Some newY\<rparr>)
                          (elements s)])))"

definition setElementsCallsRounded ::
  "(real \<Rightarrow> real) \<Rightarrow> AppState \<Rightarrow> MouseEvent \<Rightarrow> LabelElement list list" where
  "setElementsCallsRounded rnd s e =
     (case dragBranchRounded rnd s e of
        None \<Rightarrow> []
      | Some calls \<Rightarrow> calls @ resizeBranchRounded rnd s e)"

definition handleMouseMoveRounded :: "(real \<Rightarrow> real) \<Rightarrow> MouseEvent \<Rightarrow> AppState \<Rightarrow> AppState" where
  "handleMouseMoveRounded rnd e s =
     (case setElementsCallsRounded rnd s e of
        [] \<Rightarrow> s
      | c # cs \<Rightarrow> s\<lparr>elements := last (c # cs)\<rparr>)"

definition roundingError :: "(real \<Rightarrow> real) \<Rightarrow> real \<Rightarrow> real" where
  "roundingError rnd v = \<bar>rnd v - v\<bar>"

section \<open>Property panel\<close>

subsection \<open>The built-in number parsers\<close>

text \<open>
  \<^verbatim>\<open>parseInt\<close> and \<^verbatim>\<open>parseFloat\<close> are built-ins of the language. They are modelled
  after their definition in the ECMAScript standard, for texts of ASCII characters:
  leading white space is skipped, a sign is read, and the longest prefix that is a
  numeral is evaluated; when there is no such prefix the result is \<^verbatim>\<open>NaN\<close>. The
  result is the double nearest to the value of the numeral, with the sign that was
  read: an infinity when the value overflows, a zero of that sign when it rounds to
  zero. (The standard lets an implementation replace the digits after the 20th
  significant one by zeros before rounding; the model rounds the exact value.)
\<close>

definition isWhiteSpace :: "char \<Rightarrow> bool" where
  "isWhiteSpace c \<longleftrightarrow> c \<in> set [CHR 0x09, CHR 0x0A, CHR 0x0B, CHR 0x0C, CHR 0x0D, CHR 0x20]"

definition digitOf :: "nat \<Rightarrow> char \<Rightarrow> nat option" where
  "digitOf radix c =
     (let n = (of_char c :: nat);
          v = (if 48 \<le> n \<and> n \<le> 57 then Some (n - 48)
               else if 97 \<le> n \<and> n \<le> 122 then Some (n - 87)
               else if 65 \<le> n \<and> n \<le> 90 then Some (n - 55)
               else None)
      in case v of None \<Rightarrow> None | Some d \<Rightarrow> if d < radix then Some d else None)"

definition isDigit :: "nat \<Rightarrow> char \<Rightarrow> bool" where
  "isDigit radix c \<longleftrightarrow> digitOf radix c \<noteq> None"

fun digitsValue :: "nat \<Rightarrow> nat \<Rightarrow> string \<Rightarrow> nat" where
  "digitsValue radix acc [] = acc"
| "digitsValue radix acc (c # cs) =
     digitsValue radix (acc * radix + (case digitOf radix c of None \<Rightarrow> 0 | Some d \<Rightarrow> d)) cs"

definition isSign :: "string \<Rightarrow> bool" where
  "isSign t \<longleftrightarrow> take 1 t = ''+'' \<or> take 1 t = ''-''"

definition parseInt :: "string \<Rightarrow> jsnum" where
  "parseInt text =
     (let S = dropWhile isWhiteSpace text;
          negative = (take 1 S = ''-'');
          S1 = (if isSign S then drop 1 S else S);
          hex = (take 2 S1 = ''0x'' \<or> take 2 S1 = ''0X'');
          R = (if hex then 16 else 10);
          S2 = (if hex then drop 2 S1 else S1);
          Z = takeWhile (isDigit R) S2
      in if Z = [] then NaN else signedDouble negative (real (digitsValue R 0 Z)))"

definition parseFloat :: "string \<Rightarrow> jsnum" where
  "parseFloat text =
     (let S = dropWhile isWhiteSpace text;
          negative = (take 1 S = ''-'');
          S1 = (if isSign S then drop 1 S else S)
      in if take 8 S1 = ''Infinity'' then signedInfinity negative
         else
           let intDigits = takeWhile (isDigit 10) S1;
               S2 = dropWhile (isDigit 10) S1;
               hasPoint = (take 1 S2 = ''.'');
               fracDigits = (if hasPoint then takeWhile (isDigit 10) (drop 1 S2) else []);
               S3 = (if hasPoint then dropWhile (isDigit 10) (drop 1 S2) else S2);
               hasE = (take 1 S3 = ''e'' \<or> take 1 S3 = ''E'');
               S4 = drop 1 S3;
               expNegative = (take 1 S4 = ''-'');
               expDigits = (if hasE then takeWhile (isDigit 10) (if isSign S4 then drop 1 S4 else S4)
                            else []);
               mantissa = real (digitsValue 10 0 (intDigits @ fracDigits)) / 10 ^ length fracDigits;
               magnitude = (if expNegative then mantissa / 10 ^ digitsValue 10 0 expDigits
                            else mantissa * 10 ^ digitsValue 10 0 expDigits)
           in if intDigits = [] \<and> fracDigits = [] then NaN
              else signedDouble negative magnitude)"

subsection \<open>Change handlers of the inputs\<close>

text \<open>
  \<^verbatim>\<open>selected\<close> is the element found for the selected id. The four element inputs
  are rendered only when it exists; their \<^verbatim>\<open>onChange\<close> handlers call
  \<^verbatim>\<open>updateElement(selected.id, ...)\<close> with the text of the input. Without a selected
  element there is no input and no event: the model leaves the state as it is.
\<close>

definition selected :: "AppState \<Rightarrow> LabelElement option" where
  "selected s = (case selectedElement s of None \<Rightarrow> None | Some i \<Rightarrow> findElement i (elements s))"

definition onChangeLabel :: "string \<Rightarrow> AppState \<Rightarrow> AppState" where
  "onChangeLabel text s =
     (case selected s of None \<Rightarrow> s
      | Some sel \<Rightarrow> updateElement (el_id sel) (no_updates\<lparr>up_label := Some text\<rparr>) s)"

definition onChangeValue :: "string \<Rightarrow> AppState \<Rightarrow> AppState" where
  "onChangeValue text s =
     (case selected s of None \<Rightarrow> s
      | Some sel \<Rightarrow> updateElement (el_id sel) (no_updates\<lparr>up_value := Some text\<rparr>) s)"

definition onChangeFontSize :: "string \<Rightarrow> AppState \<Rightarrow> AppState" where
  "onChangeFontSize text s =
     (case selected s of None \<Rightarrow> s
      | Some sel \<Rightarrow> updateElement (el_id sel) (no_updates\<lparr>up_fontSize := Some (parseInt text)\<rparr>) s)"

definition onChangeColor :: "string \<Rightarrow> AppState \<Rightarrow> AppState" where
  "onChangeColor text s =
     (case selected s of None \<Rightarrow> s
      | Some sel \<Rightarrow> updateElement (el_id sel) (no_updates\<lparr>up_color := Some text\<rparr>) s)"

definition onChangeWidth :: "string \<Rightarrow> AppState \<Rightarrow> AppState" where
  "onChangeWidth text s = s\<lparr>labelConfig := (labelConfig s)\<lparr>cfg_width := parseFloat text\<rparr>\<rparr>"

definition onChangeHeight :: "string \<Rightarrow> AppState \<Rightarrow> AppState" where
  "onChangeHeight text s = s\<lparr>labelConfig := (labelConfig s)\<lparr>cfg_height := parseFloat text\<rparr>\<rparr>"

definition onChangeQuantity :: "string \<Rightarrow> AppState \<Rightarrow> AppState" where
  "onChangeQuantity text s = s\<lparr>labelConfig := (labelConfig s)\<lparr>cfg_quantity := parseInt text\<rparr>\<rparr>"

section \<open>Rendering\<close>

text \<open>
  \<^verbatim>\<open>mmToPx\<close>: \<^verbatim>\<open>(mm * 96) / 25.4\<close>, where the literal \<^verbatim>\<open>25.4\<close> denotes the double
  nearest to it.
\<close>

definition mmToPx :: "jsnum \<Rightarrow> jsnum" where
  "mmToPx mm = jdiv (jmul mm (Num 96)) (signedDouble False 25.4)"

definition labelWidth :: "AppState \<Rightarrow> jsnum" where
  "labelWidth s = mmToPx (cfg_width (labelConfig s))"

definition labelHeight :: "AppState \<Rightarrow> jsnum" where
  "labelHeight s = mmToPx (cfg_height (labelConfig s))"

text \<open>
  The inline style of the edit canvas: its width and height in pixels, the label
  size converted by \<open>mmToPx\<close>.
\<close>

definition canvasSize :: "AppState \<Rightarrow> jsnum \<times> jsnum" where
  "canvasSize s = (labelWidth s, labelHeight s)"

text \<open>
  \<^verbatim>\<open>Array.from({ length: q })\<close> converts \<^verbatim>\<open>q\<close> to a length (\<^verbatim>\<open>NaN\<close>, the zeros and
  the negative numbers give 0, a fraction is truncated, the result is at most
  \<open>2^53 - 1\<close>) and constructs an array of that length, which throws a
  \<^verbatim>\<open>RangeError\<close> above \<open>2^32 - 1\<close>.
\<close>

datatype js_error = RangeError

definition toLength :: "jsnum \<Rightarrow> nat" where
  "toLength q =
     (case q of NaN \<Rightarrow> 0 | NegInf \<Rightarrow> 0 | NegZero \<Rightarrow> 0 | PosInf \<Rightarrow> 2 ^ 53 - 1
      | Num r \<Rightarrow> if r \<le> 0 then 0 else min (nat \<lfloor>r\<rfloor>) (2 ^ 53 - 1))"

definition arrayFromLength :: "jsnum \<Rightarrow> js_error + nat list" where
  "arrayFromLength q =
     (if toLength q > 2 ^ 32 - 1 then Inl RangeError else Inr [0 ..< toLength q])"

text \<open>
  A ruler beside the edit canvas has one tick for every index of
  \<^verbatim>\<open>Array.from({ length: Math.ceil(size) + 1 })\<close>, where \<^verbatim>\<open>size\<close> is the width or the
  height of the label in millimetres: the tick of index \<open>i\<close> stands at \<open>mmToPx i\<close>
  pixels and is a major tick when \<open>i\<close> is a multiple of 10, a middle tick when it is
  a multiple of 5.
\<close>

record RulerTick =
  tick_mm :: nat
  tick_pos :: jsnum
  tick_major :: bool
  tick_mid :: bool

definition rulerTicks :: "jsnum \<Rightarrow> js_error + RulerTick list" where
  "rulerTicks mmSize =
     (case arrayFromLength (jadd (jceil mmSize) (Num 1)) of
        Inl err \<Rightarrow> Inl err
      | Inr indices \<Rightarrow>
          Inr (map (\<lambda>i. \<lparr>tick_mm = i, tick_pos = mmToPx (Num (real i)),
                          tick_major = (i mod 10 = 0), tick_mid = (i mod 5 = 0)\<rparr>) indices))"

text \<open>
  One element inside one copy of the label, with the numbers of its inline style:
  \<^verbatim>\<open>left\<close>, \<^verbatim>\<open>top\<close>, \<^verbatim>\<open>width\<close> and \<^verbatim>\<open>height\<close> in percent, the font size in
  pixels. A copy has its React key (the index), its size in millimetres and its
  elements. The class names (with the page-break marker) are not part of the model.
\<close>

record PreviewElement =
  pv_key :: string
  pv_left :: jsnum
  pv_top :: jsnum
  pv_width :: jsnum
  pv_height :: jsnum
  pv_fontSize :: jsnum
  pv_color :: string
  pv_barcode :: bool
  pv_value :: string

record PreviewCopy =
  copy_key :: nat
  copy_width_mm :: jsnum
  copy_height_mm :: jsnum
  copy_elements :: "PreviewElement list"

definition previewElement :: "AppState \<Rightarrow> LabelElement \<Rightarrow> PreviewElement" where
  "previewElement s element =
     \<lparr>pv_key = el_id element,
      pv_left = jmul (jdiv (Num (el_x element)) (labelWidth s)) (Num 100),
      pv_top = jmul (jdiv (Num (el_y element)) (labelHeight s)) (Num 100),
      pv_width = jmul (jdiv (Num (el_width element)) (labelWidth s)) (Num 100),
      pv_height = jmul (jdiv (Num (el_height element)) (labelHeight s)) (Num 100),
      pv_fontSize = el_fontSize element,
      pv_color = el_color element,
      pv_barcode = (el_type element = Barcode),
      pv_value = el_value element\<rparr>"

text \<open>
  The copies of the preview dialog, one for every index of
  \<^verbatim>\<open>Array.from({ length: labelConfig.quantity })\<close>.
\<close>

definition renderPreview :: "AppState \<Rightarrow> js_error + PreviewCopy list" where
  "renderPreview s =
     (case arrayFromLength (cfg_quantity (labelConfig s)) of
        Inl err \<Rightarrow> Inl err
      | Inr indices \<Rightarrow>
          Inr (map (\<lambda>index.
                 \<lparr>copy_key = index,
                  copy_width_mm = cfg_width (labelConfig s),
                  copy_height_mm = cfg_height (labelConfig s),
                  copy_elements = map (previewElement s) (elements s)\<rparr>) indices))"

text \<open>
  One render of the page. The component function builds the two rulers, the edit
  canvas and the content of the preview dialog in this order, whether or not the
  dialog is open; an exception thrown by one of the three \<^verbatim>\<open>Array.from\<close> calls
  leaves the component function, and nothing is rendered.
\<close>

record Page =
  page_rulerX :: "RulerTick list"
  page_rulerY :: "RulerTick list"
  page_canvasSize :: "jsnum \<times> jsnum"
  page_preview :: "PreviewCopy list"

definition renderPage :: "AppState \<Rightarrow> js_error + Page" where
  "renderPage s =
     (case rulerTicks (cfg_width (labelConfig s)) of
        Inl err \<Rightarrow> Inl err
      | Inr rulerX \<Rightarrow>
          (case rulerTicks (cfg_height (labelConfig s)) of
             Inl err \<Rightarrow> Inl err
           | Inr rulerY \<Rightarrow>
               (case renderPreview s of
                  Inl err \<Rightarrow> Inl err
                | Inr copies \<Rightarrow>
                    Inr \<lparr>page_rulerX = rulerX, page_rulerY = rulerY,
                         page_canvasSize = canvasSize s, page_preview = copies\<rparr>)))"

section \<open>Runs of the application\<close>

text \<open>
  The events of the page, one per handler. \<open>CardClick\<close> is the click on an entry of
  the element list, \<open>SetShowPreview\<close> the opening and closing of the preview dialog.
  The handlers that take an id are applied to any id here, though the page only
  renders them for elements of the list.
\<close>

datatype Action =
    AddElement ElementType nat
  | DeleteElement string
  | MouseDown string
  | MouseMove MouseEvent
  | MouseUp
  | ResizeStart string string
  | CardClick string
  | ChangeLabel string
  | ChangeValue string
  | ChangeFontSize string
  | ChangeColor string
  | ChangeWidth string
  | ChangeHeight string
  | ChangeQuantity string
  | SetShowPreview bool

fun step :: "AppState \<Rightarrow> Action \<Rightarrow> AppState" where
  "step s (AddElement t now) = addElement t now s"
| "step s (DeleteElement i) = deleteElement i s"
| "step s (MouseDown i) = handleMouseDown i s"
| "step s (MouseMove e) = handleMouseMove e s"
| "step s MouseUp = handleMouseUp s"
| "step s (ResizeStart i h) = handleResizeStart i h s"
| "step s (CardClick i) = s\<lparr>selectedElement := Some i\<rparr>"
| "step s (ChangeLabel text) = onChangeLabel text s"
| "step s (ChangeValue text) = onChangeValue text s"
| "step s (ChangeFontSize text) = onChangeFontSize text s"
| "step s (ChangeColor text) = onChangeColor text s"
| "step s (ChangeWidth text) = onChangeWidth text s"
| "step s (ChangeHeight text) = onChangeHeight text s"
| "step s (ChangeQuantity text) = onChangeQuantity text s"
| "step s (SetShowPreview b) = s\<lparr>showPreview := b\<rparr>"

definition run :: "AppState \<Rightarrow> Action list \<Rightarrow> AppState" where
  "run s acts = foldl step s acts"

text \<open>
  The same runs with the pointer-move handler in rounded arithmetic; no other
  handler computes a coordinate.
\<close>

fun stepRounded :: "(real \<Rightarrow> real) \<Rightarrow> AppState \<Rightarrow> Action \<Rightarrow> AppState" where
  "stepRounded rnd s (MouseMove e) = handleMouseMoveRounded rnd e s"
| "stepRounded rnd s a = step s a"

definition runRounded :: "(real \<Rightarrow> real) \<Rightarrow> AppState \<Rightarrow> Action list \<Rightarrow> AppState" where
  "runRounded rnd s acts = foldl (stepRounded rnd) s acts"

text \<open>
  The events that the page can deliver in a state. The delete button, the card and
  the pointer-down handler exist once for every element of the list and pass the id
  of that element; the four resize handles exist for the elements that have the
  selected id; the four inputs of an element exist when an element is found for the
  selected id. The other controls are always there. \<open>enabledRun s acts\<close>: every
  event of the sequence can be delivered in the state in which it arrives.
\<close>

fun enabled :: "AppState \<Rightarrow> Action \<Rightarrow> bool" where
  "enabled s (DeleteElement i) = (findElement i (elements s) \<noteq> None)"
| "enabled s (MouseDown i) = (findElement i (elements s) \<noteq> None)"
| "enabled s (CardClick i) = (findElement i (elements s) \<noteq> None)"
| "enabled s (ResizeStart i h) =
     (findElement i (elements s) \<noteq> None \<and> selectedElement s = Some i \<and>
      h \<in> set [''se'', ''sw'', ''ne'', ''nw''])"
| "enabled s (ChangeLabel v) = (selected s \<noteq> None)"
| "enabled s (ChangeValue v) = (selected s \<noteq> None)"
| "enabled s (ChangeFontSize v) = (selected s \<noteq> None)"
| "enabled s (ChangeColor v) = (selected s \<noteq> None)"
| "enabled s a = True"

fun enabledRun :: "AppState \<Rightarrow> Action list \<Rightarrow> bool" where
  "enabledRun s [] = True"
| "enabledRun s (a # acts) = (enabled s a \<and> enabledRun (step s a) acts)"

section \<open>An earlier revision of the drag handler\<close>

text \<open>
  The source file also holds an earlier revision of the page, without resize
  handles, whose pointer-move handler places the dragged element at a fixed offset
  from the pointer (20 pixels to the left, 10 pixels up) instead of centring it.
  Its elements have no width and height; the model reuses the record and leaves
  those two fields alone.
\<close>

definition handleMouseMoveFixedOffset :: "MouseEvent \<Rightarrow> AppState \<Rightarrow> AppState" where
  "handleMouseMoveFixedOffset e s =
     (case draggedElement s of
        None \<Rightarrow> s
      | Some d \<Rightarrow>
          if d = [] then s
          else let x = clientX e - rectLeft e - 20;
                   y = clientY e - rectTop e - 10
               in updateElement d (no_updates\<lparr>up_x := Some (max 0 x), up_y := Some (max 0 y)\<rparr>) s)"

section \<open>Predicates used in the properties\<close>

definition minSize :: "LabelElement \<Rightarrow> bool" where
  "minSize el \<longleftrightarrow> 30 \<le> el_width el \<and> 20 \<le> el_height el"

definition wellSized :: "AppState \<Rightarrow> bool" where
  "wellSized s \<longleftrightarrow> list_all minSize (elements s)"

text \<open>
  The adds of a sequence of events, as pairs of element type and clock reading, and
  the ids that these adds issue, both in the order of the events.
\<close>

fun addsOf :: "Action list \<Rightarrow> (ElementType \<times> nat) list" where
  "addsOf [] = []"
| "addsOf (AddElement t now # acts) = (t, now) # addsOf acts"
| "addsOf (a # acts) = addsOf acts"

definition issuedIds :: "Action list \<Rightarrow> string list" where
  "issuedIds acts = map (\<lambda>(t, now). newId t now) (addsOf acts)"

text \<open>The selection is empty or names an element of the list.\<close>

definition selectionListed :: "AppState \<Rightarrow> bool" where
  "selectionListed s =
     (case selectedElement s of None \<Rightarrow> True | Some i \<Rightarrow> findElement i (elements s) \<noteq> None)"

section \<open>Facts about the rounding to doubles\<close>

lemma rne_of_int: "rne (of_int z) = z"
  by (simp add: rne_def)

lemma rne_near:
  assumes "\<bar>y - of_int z\<bar> < 1 / 2"
  shows "rne y = z"
proof -
  have "\<lfloor>y\<rfloor> = z \<or> \<lfloor>y\<rfloor> = z - 1"
    using assms by linarith
  then show ?thesis
  proof
    assume "\<lfloor>y\<rfloor> = z"
    moreover from this assms have "y - of_int z < 1 / 2" by linarith
    ultimately show ?thesis by (simp add: rne_def)
  next
    assume f: "\<lfloor>y\<rfloor> = z - 1"
    then have "y < of_int z" by linarith
    with assms have "1 / 2 < y - of_int (z - 1)" by simp
    with f show ?thesis by (simp add: rne_def)
  qed
qed

lemma rne_tie_even:
  assumes "y = of_int z + 1 / 2" and "even z"
  shows "rne y = z"
proof -
  have "\<lfloor>y\<rfloor> = z" using assms(1) by linarith
  with assms show ?thesis by (simp add: rne_def)
qed

lemma rne_tie_odd:
  assumes "y = of_int z + 1 / 2" and "odd z"
  shows "rne y = z + 1"
proof -
  have "\<lfloor>y\<rfloor> = z" using assms(1) by linarith
  with assms show ?thesis by (simp add: rne_def)
qed

lemma rne_ge_floor: "\<lfloor>y\<rfloor> \<le> rne y"
  by (simp add: rne_def Let_def)

lemma rne_nonneg: "0 \<le> y \<Longrightarrow> 0 \<le> rne y"
  using rne_ge_floor [of y] by (simp add: order_trans [of 0 "\<lfloor>y\<rfloor>"])

lemma floor_log2_bracket:
  fixes x :: real
  assumes "2 powi k \<le> \<bar>x\<bar>" and "\<bar>x\<bar> < 2 powi (k + 1)"
  shows "\<lfloor>log 2 \<bar>x\<bar>\<rfloor> = k"
proof -
  have pos: "0 < \<bar>x\<bar>"
  proof -
    have "(0::real) < 2 powi k" by simp
    with assms(1) show ?thesis by linarith
  qed
  have lo: "2 powr real_of_int k = (2::real) powi k"
    by (simp add: powr_real_of_int')
  have hi: "2 powr (real_of_int k + 1) = (2::real) powi (k + 1)"
    using powr_real_of_int' [of "2::real" "k + 1"] by simp
  have "(2::real) powr real_of_int k \<le> \<bar>x\<bar> \<and> \<bar>x\<bar> < 2 powr (real_of_int k + 1)"
    unfolding lo hi using assms by simp
  then show ?thesis
    using pos floor_log_eq_powr_iff [of "\<bar>x\<bar>" 2 k] by simp
qed

text \<open>
  The rounding of a number of known magnitude: for \<open>2^n \<le> \<bar>x\<bar> < 2^(n+1)\<close> with
  \<open>n \<le> 52\<close> the grid is \<open>2^(n-52)\<close>, and for \<open>2^(-m) \<le> \<bar>x\<bar> < 2^(1-m)\<close> with
  \<open>m \<le> 1022\<close> it is \<open>2^(-m-52)\<close>.
\<close>

lemma roundToDouble_eval:
  assumes "2 ^ n \<le> \<bar>x\<bar>" and "\<bar>x\<bar> < 2 ^ Suc n" and "n \<le> 52"
  shows "roundToDouble x = of_int (rne (x * 2 ^ (52 - n))) / 2 ^ (52 - n)"
proof -
  have nz: "x \<noteq> 0"
  proof
    assume "x = 0"
    with assms(1) have "(2::real) ^ n \<le> 0" by simp
    moreover have "(0::real) < 2 ^ n" by simp
    ultimately show False by linarith
  qed
  have "\<lfloor>log 2 \<bar>x\<bar>\<rfloor> = int n"
  proof (rule floor_log2_bracket)
    show "2 powi int n \<le> \<bar>x\<bar>" using assms(1) by simp
    have "(2::real) powi (int n + 1) = 2 ^ Suc n"
      using power_int_of_nat [of "2::real" "Suc n"] by (simp add: add.commute)
    with assms(2) show "\<bar>x\<bar> < 2 powi (int n + 1)" by simp
  qed
  then have "gridExponent x = int n - 52"
    by (simp add: gridExponent_def)
  also have "\<dots> = - int (52 - n)"
    using assms(3) by simp
  finally have g: "gridExponent x = - int (52 - n)" .
  have p: "(2::real) powi (- int (52 - n)) = 1 / 2 ^ (52 - n)"
    by (simp add: power_int_minus field_simps)
  show ?thesis
    using nz by (simp add: roundToDouble_def g p)
qed

lemma roundToDouble_eval_large:
  assumes "2 ^ n \<le> \<bar>x\<bar>" and "\<bar>x\<bar> < 2 ^ Suc n" and "52 \<le> n"
  shows "roundToDouble x = of_int (rne (x / 2 ^ (n - 52))) * 2 ^ (n - 52)"
proof -
  have nz: "x \<noteq> 0"
  proof
    assume "x = 0"
    with assms(1) have "(2::real) ^ n \<le> 0" by simp
    moreover have "(0::real) < 2 ^ n" by simp
    ultimately show False by linarith
  qed
  have "\<lfloor>log 2 \<bar>x\<bar>\<rfloor> = int n"
  proof (rule floor_log2_bracket)
    show "2 powi int n \<le> \<bar>x\<bar>" using assms(1) by simp
    have "(2::real) powi (int n + 1) = 2 ^ Suc n"
      using power_int_of_nat [of "2::real" "Suc n"] by (simp add: add.commute)
    with assms(2) show "\<bar>x\<bar> < 2 powi (int n + 1)" by simp
  qed
  then have "gridExponent x = int n - 52"
    by (simp add: gridExponent_def)
  also have "\<dots> = int (n - 52)"
    using assms(3) by simp
  finally have g: "gridExponent x = int (n - 52)" .
  show ?thesis
    using nz by (simp add: roundToDouble_def g)
qed

lemma roundToDouble_eval_small:
  assumes "1 / 2 ^ m \<le> \<bar>x\<bar>" and "\<bar>x\<bar> < 2 / 2 ^ m" and "m \<le> 1022"
  shows "roundToDouble x = of_int (rne (x * 2 ^ (m + 52))) / 2 ^ (m + 52)"
proof -
  have nz: "x \<noteq> 0"
  proof
    assume "x = 0"
    with assms(1) have "1 / (2::real) ^ m \<le> 0" by simp
    moreover have "(0::real) < 1 / 2 ^ m" by simp
    ultimately show False by linarith
  qed
  have "\<lfloor>log 2 \<bar>x\<bar>\<rfloor> = - int m"
  proof (rule floor_log2_bracket)
    show "2 powi (- int m) \<le> \<bar>x\<bar>"
      using assms(1) by (simp add: power_int_minus field_simps)
    have "(2::real) powi (- int m + 1) = 2 powi (- int m) * 2 powi 1"
      by (rule power_int_add) simp
    then have "(2::real) powi (- int m + 1) = 2 / 2 ^ m"
      by (simp add: power_int_minus field_simps)
    with assms(2) show "\<bar>x\<bar> < 2 powi (- int m + 1)" by simp
  qed
  then have g: "gridExponent x = - int (m + 52)"
    using assms(3) by (simp add: gridExponent_def)
  have "(2::real) powi (- int (m + 52)) = inverse (2 powi int (m + 52))"
    by (rule power_int_minus)
  also have "\<dots> = 1 / 2 ^ (m + 52)"
    by (simp only: power_int_of_nat inverse_eq_divide)
  finally have p: "(2::real) powi (- int (m + 52)) = 1 / 2 ^ (m + 52)" .
  show ?thesis
    unfolding roundToDouble_def g p using nz by simp
qed

text \<open>
  The three cases of the rounding, for a number of known magnitude: the scaled
  number is nearer to the integer \<open>z\<close> than to any other, or it lies half-way
  between \<open>z\<close> and \<open>z + 1\<close>.
\<close>

lemma roundToDouble_near:
  assumes "2 ^ n \<le> \<bar>x\<bar>" and "\<bar>x\<bar> < 2 ^ Suc n" and "n \<le> 52"
    and "\<bar>x * 2 ^ (52 - n) - of_int z\<bar> < 1 / 2"
  shows "roundToDouble x = of_int z / 2 ^ (52 - n)"
  unfolding roundToDouble_eval [OF assms(1,2,3)] rne_near [OF assms(4)] ..

lemma roundToDouble_tie_even:
  assumes "2 ^ n \<le> \<bar>x\<bar>" and "\<bar>x\<bar> < 2 ^ Suc n" and "n \<le> 52"
    and "x * 2 ^ (52 - n) = of_int z + 1 / 2" and "even z"
  shows "roundToDouble x = of_int z / 2 ^ (52 - n)"
  unfolding roundToDouble_eval [OF assms(1,2,3)] rne_tie_even [OF assms(4,5)] ..

lemma roundToDouble_tie_odd:
  assumes "2 ^ n \<le> \<bar>x\<bar>" and "\<bar>x\<bar> < 2 ^ Suc n" and "n \<le> 52"
    and "x * 2 ^ (52 - n) = of_int z + 1 / 2" and "odd z"
  shows "roundToDouble x = of_int (z + 1) / 2 ^ (52 - n)"
  unfolding roundToDouble_eval [OF assms(1,2,3)] rne_tie_odd [OF assms(4,5)] ..

lemma roundToDouble_near_small:
  assumes "1 / 2 ^ m \<le> \<bar>x\<bar>" and "\<bar>x\<bar> < 2 / 2 ^ m" and "m \<le> 1022"
    and "\<bar>x * 2 ^ (m + 52) - of_int z\<bar> < 1 / 2"
  shows "roundToDouble x = of_int z / 2 ^ (m + 52)"
  unfolding roundToDouble_eval_small [OF assms(1,2,3)] rne_near [OF assms(4)] ..

lemma roundToDouble_near_large:
  assumes "2 ^ n \<le> \<bar>x\<bar>" and "\<bar>x\<bar> < 2 ^ Suc n" and "52 \<le> n"
    and "\<bar>x / 2 ^ (n - 52) - of_int z\<bar> < 1 / 2"
  shows "roundToDouble x = of_int z * 2 ^ (n - 52)"
  unfolding roundToDouble_eval_large [OF assms(1,2,3)] rne_near [OF assms(4)] ..

lemma roundToDouble_tie_even_large:
  assumes "2 ^ n \<le> \<bar>x\<bar>" and "\<bar>x\<bar> < 2 ^ Suc n" and "52 \<le> n"
    and "x / 2 ^ (n - 52) = of_int z + 1 / 2" and "even z"
  shows "roundToDouble x = of_int z * 2 ^ (n - 52)"
  unfolding roundToDouble_eval_large [OF assms(1,2,3)] rne_tie_even [OF assms(4,5)] ..

text \<open>An integer below \<open>2^53\<close> in magnitude is a double.\<close>

lemma roundToDouble_int:
  assumes "\<bar>z\<bar> < 2 ^ 53"
  shows "roundToDouble (of_int z) = of_int z"
proof (cases "z = 0")
  case True
  then show ?thesis by (simp add: roundToDouble_def)
next
  case False
  define n where "n = nat \<lfloor>log 2 \<bar>real_of_int z\<bar>\<rfloor>"
  have pos: "0 < \<bar>real_of_int z\<bar>" using False by simp
  have one: "1 \<le> \<bar>real_of_int z\<bar>" using False by (simp flip: of_int_abs)
  then have "0 \<le> log 2 \<bar>real_of_int z\<bar>" by simp
  then have fl: "\<lfloor>log 2 \<bar>real_of_int z\<bar>\<rfloor> = int n"
    by (simp add: n_def)
  from floor_log_eq_powr_iff [of "\<bar>real_of_int z\<bar>" 2 "int n"] pos fl
  have "2 powr real_of_int (int n) \<le> \<bar>real_of_int z\<bar>"
    and "\<bar>real_of_int z\<bar> < 2 powr (real_of_int (int n) + 1)"
    by simp_all
  then have lo: "2 ^ n \<le> \<bar>real_of_int z\<bar>" and hi: "\<bar>real_of_int z\<bar> < 2 ^ Suc n"
    by (simp_all add: powr_realpow powr_add)
  have lt: "(2::real) ^ n < 2 ^ 53"
  proof -
    have "\<bar>real_of_int z\<bar> < 2 ^ 53"
      using assms by (metis of_int_abs of_int_less_iff of_int_numeral of_int_power)
    with lo show ?thesis by linarith
  qed
  have n: "n \<le> 52"
  proof (rule ccontr)
    assume "\<not> n \<le> 52"
    then have "53 \<le> n" by simp
    then have "(2::real) ^ 53 \<le> 2 ^ n" by (rule power_increasing) simp
    with lt show False by linarith
  qed
  have "real_of_int z * 2 ^ (52 - n) = of_int (z * 2 ^ (52 - n))" by simp
  then have "rne (real_of_int z * 2 ^ (52 - n)) = z * 2 ^ (52 - n)"
    by (simp only: rne_of_int)
  then show ?thesis
    by (simp add: roundToDouble_eval [OF lo hi n])
qed

lemma roundToDouble_nat: "n < 2 ^ 53 \<Longrightarrow> roundToDouble (real n) = real n"
  using roundToDouble_int [of "int n"] by simp

lemma roundToDouble_numeral:
  "(numeral k :: int) < 2 ^ 53 \<Longrightarrow> roundToDouble (numeral k) = numeral k"
  using roundToDouble_int [of "numeral k"] by simp

lemma roundToDouble_nonneg: "0 \<le> x \<Longrightarrow> 0 \<le> roundToDouble x"
  by (simp add: roundToDouble_def rne_nonneg)

lemma signedDouble_nat:
  assumes "n < 2 ^ 53"
  shows "signedDouble negative (real n) =
           (if n = 0 then signedZero negative else Num (if negative then - real n else real n))"
proof -
  have "real n < 2 ^ 53"
    using assms by (metis of_nat_less_iff of_nat_numeral of_nat_power)
  moreover have "(2::real) ^ 53 \<le> 2 ^ 1024"
    by (rule power_increasing) simp_all
  ultimately have "\<not> 2 ^ 1024 \<le> real n" by linarith
  then show ?thesis
    by (simp add: signedDouble_def roundToDouble_nat [OF assms])
qed

lemma signedDouble_numeral:
  assumes "(numeral k :: nat) < 2 ^ 53"
  shows "signedDouble negative (numeral k) = Num (if negative then - numeral k else numeral k)"
proof -
  have "signedDouble negative (real (numeral k)) =
      (if (numeral k :: nat) = 0 then signedZero negative
       else Num (if negative then - real (numeral k) else real (numeral k)))"
    using assms by (rule signedDouble_nat)
  then show ?thesis by simp
qed

text \<open>
  Overflow and underflow: a number of \<open>2^n\<close> or more is rounded to \<open>2^n\<close> or more,
  so a magnitude of \<open>2^1024\<close> or more gives an infinity; a magnitude below half of
  the smallest double above zero is rounded to zero.
\<close>

lemma roundToDouble_ge_pow2:
  assumes "2 ^ n \<le> x"
  shows "2 ^ n \<le> roundToDouble x"
proof -
  have pos: "0 < x"
  proof -
    have "(0::real) < 2 ^ n" by simp
    with assms show ?thesis by linarith
  qed
  define k where "k = \<lfloor>log 2 x\<rfloor>"
  have "real n \<le> log 2 x"
    using assms pos by (simp add: le_log_iff powr_realpow)
  then have nk: "int n \<le> k"
    unfolding k_def by (simp add: le_floor_iff)
  have "2 powr real_of_int k \<le> x"
    using floor_log_eq_powr_iff [of x 2 k] pos by (simp add: k_def)
  then have kx: "2 powi k \<le> x"
    by (simp add: powr_real_of_int')
  have g: "gridExponent x = k - 52"
    using nk pos by (simp add: gridExponent_def k_def)
  have split: "(2::real) powi k = 2 powi 52 * 2 powi (k - 52)"
    using power_int_add [of "2::real" 52 "k - 52"] by simp
  have gpos: "(0::real) < 2 powi (k - 52)" by simp
  have "2 powi 52 * 2 powi (k - 52) \<le> x"
    using kx split by simp
  then have "2 powi 52 \<le> x / 2 powi (k - 52)"
    using gpos by (simp add: pos_le_divide_eq)
  then have "real_of_int (2 ^ 52) \<le> x / 2 powi (k - 52)"
    by simp
  then have "2 ^ 52 \<le> \<lfloor>x / 2 powi (k - 52)\<rfloor>"
    by (simp only: le_floor_iff)
  then have "2 ^ 52 \<le> rne (x / 2 powi (k - 52))"
    using rne_ge_floor [of "x / 2 powi (k - 52)"] by linarith
  then have "real_of_int (2 ^ 52) \<le> real_of_int (rne (x / 2 powi (k - 52)))"
    by (simp only: of_int_le_iff)
  then have "2 powi 52 * 2 powi (k - 52) \<le> real_of_int (rne (x / 2 powi (k - 52))) * 2 powi (k - 52)"
    using gpos by simp
  then have "2 powi k \<le> roundToDouble x"
    using pos by (simp add: roundToDouble_def g split)
  moreover have "(2::real) powi int n \<le> 2 powi k"
    using nk by (intro power_int_increasing) simp_all
  ultimately show ?thesis by simp
qed

lemma roundToDouble_underflow:
  assumes "0 \<le> x" and "x < 1 / 2 ^ 1075"
  shows "roundToDouble x = 0"
proof (cases "x = 0")
  case True
  then show ?thesis by (simp add: roundToDouble_def)
next
  case False
  with assms(1) have pos: "0 < x" by simp
  have "x < 2 powr (- 1075)"
    using assms(2) powr_real_of_int' [of "2::real" "- 1075"]
    by (simp add: power_int_minus inverse_eq_divide)
  then have "log 2 x < - 1075"
    using pos by (simp add: log_less_iff)
  then have "\<lfloor>log 2 x\<rfloor> < - 1075"
    by (simp add: floor_less_iff)
  then have "max (\<lfloor>log 2 x\<rfloor> - 52) (- 1074) = - 1074"
    by linarith
  then have g: "gridExponent x = - 1074"
    using pos by (simp only: gridExponent_def abs_of_pos)
  have p: "(2::real) powi (- 1074) = 1 / 2 ^ 1074"
    by (simp add: power_int_minus inverse_eq_divide)
  have "x * 2 ^ 1074 < 1 / 2"
  proof -
    have "x * 2 ^ 1074 < (1 / 2 ^ 1075) * 2 ^ 1074"
      using assms(2) by (intro mult_strict_right_mono) simp_all
    then show ?thesis by simp
  qed
  moreover have "0 \<le> x * 2 ^ 1074" using assms(1) by simp
  ultimately have "rne (x * 2 ^ 1074) = 0"
    by (intro rne_near) simp
  then show ?thesis
    using False by (simp add: roundToDouble_def g p)
qed

text \<open>The literal \<^verbatim>\<open>25.4\<close>.\<close>

lemma literal_25_4: "signedDouble False 25.4 = Num (3574732204225331 / 2 ^ 47)"
proof -
  have "roundToDouble 25.4 = 3574732204225331 / 2 ^ 47"
    using roundToDouble_near [of 4 "25.4" 7149464408450662] by simp
  then show ?thesis
    by (simp add: signedDouble_def signedZero_def)
qed

lemma roundToDouble_neg_numeral:
  "(numeral k :: int) < 2 ^ 53 \<Longrightarrow> roundToDouble (- numeral k) = - numeral k"
  using roundToDouble_int [of "- numeral k"] by simp

lemma roundToDouble_0: "roundToDouble 0 = 0"
  by (simp add: roundToDouble_def)

lemma roundToDouble_1: "roundToDouble 1 = 1"
  using roundToDouble_int [of 1] by simp

lemmas roundToDouble_integers =
  roundToDouble_0 roundToDouble_1 roundToDouble_numeral roundToDouble_neg_numeral


section \<open>Basic facts about the handlers\<close>

lemmas handler_defs =
  handleMouseMove_def setElementsCalls_def dragBranch_def resizeBranch_def findElement_def
  resizeGeometry_def updatedElements_def spread_def no_updates_def updateElement_def
  addElement_def deleteElement_def handleMouseDown_def handleMouseUp_def handleResizeStart_def
  newElement_def initialState_def selected_def

lemma newId_examples:
  "newId Text 17 = ''text-17''" "newId Price 42 = ''price-42''" "newId Barcode 99 = ''barcode-99''"
  by code_simp+


lemma findElement_None_iff:
  "findElement i els = None \<longleftrightarrow> (\<forall>el \<in> set els. el_id el \<noteq> i)"
  by (auto simp: findElement_def find_None_iff)

lemma findElement_Some_D:
  "findElement i els = Some el \<Longrightarrow> el \<in> set els \<and> el_id el = i"
  by (auto simp: findElement_def find_Some_iff)

lemma spread_position:
  "spread el (no_updates\<lparr>up_x := Some a, up_y := Some b\<rparr>) = el\<lparr>el_x := a, el_y := b\<rparr>"
  by (simp add: spread_def no_updates_def)


text \<open>The state after the handler holds the argument of the last call, if any.\<close>

lemma handleMouseMove_last:
  "handleMouseMove e s =
     (if setElementsCalls s e = [] then s else s\<lparr>elements := last (setElementsCalls s e)\<rparr>)"
  by (simp add: handleMouseMove_def split: list.splits)

lemma handleMouseMove_unchanged:
  "setElementsCalls s e = [] \<Longrightarrow> handleMouseMove e s = s"
  by (simp add: handleMouseMove_def)

lemma dragBranch_None_iff:
  "dragBranch s e = None \<longleftrightarrow>
     (\<exists>d. draggedElement s = Some d \<and> d \<noteq> [] \<and> findElement d (elements s) = None)"
  by (auto simp: dragBranch_def Let_def split: option.splits)

lemma dragBranch_Some:
  assumes "draggedElement s = Some d" and "d \<noteq> []"
    and "findElement d (elements s) = Some element"
  shows "dragBranch s e =
           Some [map (\<lambda>el. if el_id el = d
                            then el\<lparr>el_x := max 0 (clientX e - rectLeft e - el_width element / 2),
                                    el_y := max 0 (clientY e - rectTop e - el_height element / 2)\<rparr>
                            else el) (elements s)]"
  using assms by (simp add: dragBranch_def Let_def updatedElements_def spread_position)

lemma resizeBranch_Nil_iff:
  "resizeBranch s e = [] \<longleftrightarrow>
     resizingElement s = None \<or>
     (\<exists>r. resizingElement s = Some r \<and> findElement (rs_id r) (elements s) = None)"
  by (auto simp: resizeBranch_def Let_def split: option.splits prod.splits)

lemma resizeBranch_Some:
  assumes "resizingElement s = Some r" and "findElement (rs_id r) (elements s) = Some old"
    and "resizeGeometry (rs_handle r) (clientX e - rectLeft e) (clientY e - rectTop e) old = (w, ht, x, y)"
  shows "resizeBranch s e =
           [updatedElements (rs_id r)
              (no_updates\<lparr>up_width := Some w, up_height := Some ht, up_x := Some x, up_y := Some y\<rparr>)
              (elements s)]"
  using assms by (simp add: resizeBranch_def Let_def)

lemma handleMouseMove_resize:
  assumes "dragBranch s e \<noteq> None" and "resizeBranch s e = [c]"
  shows "handleMouseMove e s = s\<lparr>elements := c\<rparr>"
  using assms by (auto simp: handleMouseMove_last setElementsCalls_def)

lemma resized_fields:
  assumes "new \<in> set (updatedElements i
              (no_updates\<lparr>up_width := Some w, up_height := Some ht, up_x := Some x, up_y := Some y\<rparr>) els)"
    and "el_id new = i"
  shows "el_width new = w \<and> el_height new = ht \<and> el_x new = x \<and> el_y new = y"
proof -
  let ?u = "no_updates\<lparr>up_width := Some w, up_height := Some ht, up_x := Some x, up_y := Some y\<rparr>"
  from assms(1) obtain el where "new = (if el_id el = i then spread el ?u else el)"
    unfolding updatedElements_def set_map by blast
  with assms(2) have "new = spread el ?u"
    by (cases "el_id el = i") simp_all
  then show ?thesis
    by (simp add: spread_def no_updates_def)
qed

lemma handleMouseMove_resized:
  assumes "resizingElement s = Some r"
    and "findElement (rs_id r) (elements s) = Some old"
    and "dragBranch s e \<noteq> None"
    and "resizeGeometry (rs_handle r) (clientX e - rectLeft e) (clientY e - rectTop e) old = (w, ht, x, y)"
    and "new \<in> set (elements (handleMouseMove e s))"
    and "el_id new = rs_id r"
  shows "el_width new = w \<and> el_height new = ht \<and> el_x new = x \<and> el_y new = y"
proof -
  have "handleMouseMove e s = s\<lparr>elements := updatedElements (rs_id r)
          (no_updates\<lparr>up_width := Some w, up_height := Some ht, up_x := Some x, up_y := Some y\<rparr>)
          (elements s)\<rparr>"
    using handleMouseMove_resize [OF assms(3) resizeBranch_Some [OF assms(1,2,4)]] .
  with assms(5) have "new \<in> set (updatedElements (rs_id r)
          (no_updates\<lparr>up_width := Some w, up_height := Some ht, up_x := Some x, up_y := Some y\<rparr>)
          (elements s))"
    by simp
  then show ?thesis
    using assms(6) by (rule resized_fields)
qed

section \<open>The geometry of a resize\<close>

lemma resizeGeometry_min:
  assumes "h \<in> {''se'', ''sw'', ''ne'', ''nw''}"
    and "resizeGeometry h mx my el = (w, ht, x, y)"
  shows "30 \<le> w \<and> 20 \<le> ht"
  using assms by (auto simp: resizeGeometry_def split: if_splits)

lemma resizeGeometry_keeps_min:
  assumes "minSize el" and "resizeGeometry h mx my el = (w, ht, x, y)"
  shows "30 \<le> w \<and> 20 \<le> ht"
  using assms by (auto simp: resizeGeometry_def minSize_def split: if_splits)

section \<open>The minimum size is an invariant of every run\<close>

lemma minSize_updatedElements:
  assumes "list_all minSize els"
    and "\<forall>w. up_width u = Some w \<longrightarrow> 30 \<le> w"
    and "\<forall>h. up_height u = Some h \<longrightarrow> 20 \<le> h"
  shows "list_all minSize (updatedElements i u els)"
  using assms
  by (auto simp: list_all_iff updatedElements_def spread_def minSize_def split: option.splits)

lemma minSize_dragBranch:
  assumes "wellSized s" and "dragBranch s e = Some calls"
  shows "list_all (list_all minSize) calls"
proof -
  have "list_all minSize (updatedElements d (no_updates\<lparr>up_x := Some a, up_y := Some b\<rparr>) (elements s))"
    for d a b
    using assms(1) by (intro minSize_updatedElements) (simp_all add: no_updates_def wellSized_def)
  with assms(2) show ?thesis
    by (auto simp: dragBranch_def Let_def split: option.splits if_splits)
qed

lemma minSize_resizeBranch:
  assumes "wellSized s"
  shows "list_all (list_all minSize) (resizeBranch s e)"
proof (cases "resizingElement s")
  case None
  then show ?thesis by (simp add: resizeBranch_def)
next
  case (Some r)
  show ?thesis
  proof (cases "findElement (rs_id r) (elements s)")
    case None
    with Some show ?thesis by (simp add: resizeBranch_def)
  next
    case (Some old)
    obtain w ht x y where g:
      "resizeGeometry (rs_handle r) (clientX e - rectLeft e) (clientY e - rectTop e) old = (w, ht, x, y)"
      by (metis prod_cases4)
    from Some assms have "minSize old"
      using findElement_Some_D by (auto simp: wellSized_def list_all_iff)
    then have "30 \<le> w \<and> 20 \<le> ht"
      using g by (rule resizeGeometry_keeps_min)
    then have "list_all minSize (updatedElements (rs_id r)
        (no_updates\<lparr>up_width := Some w, up_height := Some ht, up_x := Some x, up_y := Some y\<rparr>)
        (elements s))"
      using assms by (intro minSize_updatedElements) (simp_all add: no_updates_def wellSized_def)
    then show ?thesis
      using resizeBranch_Some [OF \<open>resizingElement s = Some r\<close> Some g] by simp
  qed
qed

lemma wellSized_handleMouseMove:
  assumes "wellSized s"
  shows "wellSized (handleMouseMove e s)"
proof (cases "setElementsCalls s e = []")
  case True
  with assms show ?thesis by (simp add: handleMouseMove_last)
next
  case False
  have "list_all (list_all minSize) (setElementsCalls s e)"
  proof (cases "dragBranch s e")
    case None
    then show ?thesis by (simp add: setElementsCalls_def)
  next
    case (Some calls)
    then show ?thesis
      using minSize_dragBranch [OF assms Some] minSize_resizeBranch [OF assms, of e]
      by (simp add: setElementsCalls_def)
  qed
  with False have "list_all minSize (last (setElementsCalls s e))"
    using last_in_set by (auto simp: list_all_iff)
  with False show ?thesis by (simp add: handleMouseMove_last wellSized_def)
qed

lemma wellSized_updateElement:
  assumes "wellSized s" and "up_width u = None" and "up_height u = None"
  shows "wellSized (updateElement i u s)"
  using assms by (simp add: updateElement_def wellSized_def minSize_updatedElements)

lemma wellSized_step:
  assumes "wellSized s"
  shows "wellSized (step s a)"
proof (cases a)
  case (AddElement t now)
  with assms show ?thesis
    by (simp add: addElement_def wellSized_def minSize_def newElement_def)
next
  case (DeleteElement i)
  with assms show ?thesis
    by (simp add: deleteElement_def wellSized_def list_all_iff)
next
  case (MouseDown i)
  with assms show ?thesis by (simp add: handleMouseDown_def wellSized_def)
next
  case (MouseMove e)
  with assms show ?thesis by (simp add: wellSized_handleMouseMove)
next
  case MouseUp
  with assms show ?thesis by (simp add: handleMouseUp_def wellSized_def)
next
  case (ResizeStart i h)
  with assms show ?thesis by (simp add: handleResizeStart_def wellSized_def)
next
  case (CardClick i)
  with assms show ?thesis by (simp add: wellSized_def)
next
  case (ChangeLabel v)
  with assms show ?thesis
    by (cases "selected s")
       (simp_all add: onChangeLabel_def wellSized_updateElement no_updates_def)
next
  case (ChangeValue v)
  with assms show ?thesis
    by (cases "selected s")
       (simp_all add: onChangeValue_def wellSized_updateElement no_updates_def)
next
  case (ChangeFontSize v)
  with assms show ?thesis
    by (cases "selected s")
       (simp_all add: onChangeFontSize_def wellSized_updateElement no_updates_def)
next
  case (ChangeColor v)
  with assms show ?thesis
    by (cases "selected s")
       (simp_all add: onChangeColor_def wellSized_updateElement no_updates_def)
next
  case (ChangeWidth v)
  with assms show ?thesis by (simp add: onChangeWidth_def wellSized_def)
next
  case (ChangeHeight v)
  with assms show ?thesis by (simp add: onChangeHeight_def wellSized_def)
next
  case (ChangeQuantity v)
  with assms show ?thesis by (simp add: onChangeQuantity_def wellSized_def)
next
  case (SetShowPreview b)
  with assms show ?thesis by (simp add: wellSized_def)
qed

lemma wellSized_run:
  assumes "wellSized s"
  shows "wellSized (run s acts)"
  using assms unfolding run_def
  by (induction acts arbitrary: s) (simp_all add: wellSized_step)

text \<open>
  Claim C1. A pointer move that reaches the resize block with one of the four
  handles \<^verbatim>\<open>se\<close>, \<^verbatim>\<open>sw\<close>, \<^verbatim>\<open>ne\<close>, \<^verbatim>\<open>nw\<close> leaves every element with the resized id at
  least 30 wide and 20 high, wherever the pointer is. Elements are created 100 or
  120 wide and 30 or 40 high, and no other handler of the page writes a width or a
  height, so in every state that a sequence of events reaches from the initial
  state all elements are at least 30 wide and 20 high.
\<close>

theorem resize_respects_minimum_size:
  "(\<forall>r old new.
      resizingElement s = Some r \<and> rs_handle r \<in> {''se'', ''sw'', ''ne'', ''nw''} \<and>
      findElement (rs_id r) (elements s) = Some old \<and> dragBranch s e \<noteq> None \<and>
      new \<in> set (elements (handleMouseMove e s)) \<and> el_id new = rs_id r
      \<longrightarrow> 30 \<le> el_width new \<and> 20 \<le> el_height new) \<and>
   (\<forall>el \<in> set (elements (run initialState acts)). 30 \<le> el_width el \<and> 20 \<le> el_height el)"
proof (intro conjI allI impI)
  fix r old new
  assume a: "resizingElement s = Some r \<and> rs_handle r \<in> {''se'', ''sw'', ''ne'', ''nw''} \<and>
      findElement (rs_id r) (elements s) = Some old \<and> dragBranch s e \<noteq> None \<and>
      new \<in> set (elements (handleMouseMove e s)) \<and> el_id new = rs_id r"
  obtain w ht x y where g:
    "resizeGeometry (rs_handle r) (clientX e - rectLeft e) (clientY e - rectTop e) old = (w, ht, x, y)"
    by (metis prod_cases4)
  from a g have "el_width new = w \<and> el_height new = ht"
    using handleMouseMove_resized by blast
  moreover from a g have "30 \<le> w \<and> 20 \<le> ht"
    using resizeGeometry_min by blast
  ultimately show "30 \<le> el_width new" and "20 \<le> el_height new" by simp_all
next
  have "wellSized initialState"
    by (simp add: wellSized_def initialState_def)
  then have "wellSized (run initialState acts)"
    by (rule wellSized_run)
  then show "\<forall>el \<in> set (elements (run initialState acts)). 30 \<le> el_width el \<and> 20 \<le> el_height el"
    by (simp add: wellSized_def list_all_iff minSize_def)
qed

text \<open>
  An instance: a text element is added, its north-west handle is grabbed and the
  pointer is moved far beyond the opposite corner. The element ends 30 by 20.
\<close>

theorem resize_respects_minimum_size_witness:
  "resizingElement (handleResizeStart ''text-17'' ''nw'' (addElement Text 17 initialState))
     = Some \<lparr>rs_id = ''text-17'', rs_handle = ''nw''\<rparr> \<and>
   findElement ''text-17''
     (elements (handleResizeStart ''text-17'' ''nw'' (addElement Text 17 initialState)))
     = Some (newElement Text 17) \<and>
   elements (handleMouseMove \<lparr>clientX = 1000, clientY = 900, rectLeft = 30, rectTop = 25\<rparr>
     (handleResizeStart ''text-17'' ''nw'' (addElement Text 17 initialState)))
     = [(newElement Text 17)\<lparr>el_x := 80, el_y := 20, el_width := 30, el_height := 20\<rparr>] \<and>
   elements (run initialState
     [AddElement Text 17, ResizeStart ''text-17'' ''nw'',
      MouseMove \<lparr>clientX = 1000, clientY = 900, rectLeft = 30, rectTop = 25\<rparr>])
     = [(newElement Text 17)\<lparr>el_x := 80, el_y := 20, el_width := 30, el_height := 20\<rparr>] \<and>
   30 \<le> el_width ((newElement Text 17)\<lparr>el_x := 80, el_y := 20, el_width := 30, el_height := 20\<rparr>) \<and>
   20 \<le> el_height ((newElement Text 17)\<lparr>el_x := 80, el_y := 20, el_width := 30, el_height := 20\<rparr>)"
  using resize_respects_minimum_size
    [of "handleResizeStart ''text-17'' ''nw'' (addElement Text 17 initialState)"
        "\<lparr>clientX = 1000, clientY = 900, rectLeft = 30, rectTop = 25\<rparr>"
        "[AddElement Text 17, ResizeStart ''text-17'' ''nw'',
          MouseMove \<lparr>clientX = 1000, clientY = 900, rectLeft = 30, rectTop = 25\<rparr>]"]
  by (simp add: run_def handler_defs newId_examples)

text \<open>
  Claim C9. An element at x = 10 of width 100 is resized by its south-west handle
  and the pointer moves to the canvas position x = 200, beyond the right edge at
  110: the element ends at x = 80 with width 30. The other fields of the element,
  the vertical pointer position and the position of the canvas are arbitrary.
\<close>

theorem resize_southwest_beyond_right_edge:
  "map el_x
     (elements (handleMouseMove \<lparr>clientX = rl + 200, clientY = cy, rectLeft = rl, rectTop = rt\<rparr>
        \<lparr>elements = [el\<lparr>el_x := 10, el_width := 100\<rparr>], selectedElement = sel,
         draggedElement = None,
         resizingElement = Some \<lparr>rs_id = el_id el, rs_handle = ''sw''\<rparr>,
         labelConfig = cfg, showPreview = sp\<rparr>)) = [80] \<and>
   map el_width
     (elements (handleMouseMove \<lparr>clientX = rl + 200, clientY = cy, rectLeft = rl, rectTop = rt\<rparr>
        \<lparr>elements = [el\<lparr>el_x := 10, el_width := 100\<rparr>], selectedElement = sel,
         draggedElement = None,
         resizingElement = Some \<lparr>rs_id = el_id el, rs_handle = ''sw''\<rparr>,
         labelConfig = cfg, showPreview = sp\<rparr>)) = [30]"
  by (simp add: handleMouseMove_def setElementsCalls_def dragBranch_def resizeBranch_def
      findElement_def resizeGeometry_def updatedElements_def spread_def no_updates_def)

section \<open>Dragging\<close>




text \<open>
  The earlier revision of the handler uses the same rule with the constants 20 and
  10 in place of half the width and half the height, on every move and with the
  same clamp at 0.
\<close>

lemma drag_fixed_offset:
  assumes "draggedElement s = Some d" and "d \<noteq> []"
  shows "handleMouseMoveFixedOffset e s =
           s\<lparr>elements :=
               map (\<lambda>el. if el_id el = d
                          then el\<lparr>el_x := max 0 (clientX e - rectLeft e - 20),
                                  el_y := max 0 (clientY e - rectTop e - 10)\<rparr>
                          else el) (elements s)\<rparr>"
  using assms
  by (simp add: handleMouseMoveFixedOffset_def Let_def updateElement_def updatedElements_def
      spread_position)

section \<open>Stale ids in the pointer-move handler\<close>

text \<open>
  Claim C10, as stated, fails when the resizing id is stale while a drag of an
  existing element is active: the drag block has already passed its update to
  \<^verbatim>\<open>setElements\<close> when the resize block returns. Here the element \<^verbatim>\<open>text-17\<close> is
  dragged, the resizing id \<^verbatim>\<open>ghost\<close> names no element, and the pointer move changes
  the position of \<^verbatim>\<open>text-17\<close> from (10, 10) to (150, 85).
\<close>

theorem stale_resize_id_drag_still_applied:
  "findElement ''ghost''
     (elements \<lparr>elements = [newElement Text 17], selectedElement = Some ''text-17'',
                draggedElement = Some ''text-17'',
                resizingElement = Some \<lparr>rs_id = ''ghost'', rs_handle = ''se''\<rparr>,
                labelConfig = labelConfig initialState, showPreview = False\<rparr>) = None \<and>
   el_x (newElement Text 17) = 10 \<and> el_y (newElement Text 17) = 10 \<and>
   handleMouseMove \<lparr>clientX = 200, clientY = 100, rectLeft = 0, rectTop = 0\<rparr>
     \<lparr>elements = [newElement Text 17], selectedElement = Some ''text-17'',
      draggedElement = Some ''text-17'',
      resizingElement = Some \<lparr>rs_id = ''ghost'', rs_handle = ''se''\<rparr>,
      labelConfig = labelConfig initialState, showPreview = False\<rparr>
   = \<lparr>elements = [(newElement Text 17)\<lparr>el_x := 150, el_y := 85\<rparr>],
      selectedElement = Some ''text-17'',
      draggedElement = Some ''text-17'',
      resizingElement = Some \<lparr>rs_id = ''ghost'', rs_handle = ''se''\<rparr>,
      labelConfig = labelConfig initialState, showPreview = False\<rparr>"
  by (simp add: handler_defs newId_examples)

text \<open>
  Claim C10, amended. A pointer move leaves the whole state as it is when the
  dragged id is stale, and when no drag is active and the resizing id is stale.
  When an existing element is dragged and the resizing id is stale, the move
  applies the position update of the drag and changes nothing else. The handler is
  a total function: there is no exception in any case.
\<close>

theorem stale_id_pointer_move:
  "(\<forall>d. draggedElement s = Some d \<and> d \<noteq> [] \<and> findElement d (elements s) = None
        \<longrightarrow> handleMouseMove e s = s) \<and>
   (\<forall>r. (draggedElement s = None \<or> draggedElement s = Some []) \<and>
        resizingElement s = Some r \<and> findElement (rs_id r) (elements s) = None
        \<longrightarrow> handleMouseMove e s = s) \<and>
   (\<forall>d element r. draggedElement s = Some d \<and> d \<noteq> [] \<and>
        findElement d (elements s) = Some element \<and>
        resizingElement s = Some r \<and> findElement (rs_id r) (elements s) = None
        \<longrightarrow> handleMouseMove e s =
            s\<lparr>elements :=
                map (\<lambda>el. if el_id el = d
                     then el\<lparr>el_x := max 0 (clientX e - rectLeft e - el_width element / 2),
                             el_y := max 0 (clientY e - rectTop e - el_height element / 2)\<rparr>
                     else el) (elements s)\<rparr>)"
proof (intro conjI allI impI)
  fix d
  assume "draggedElement s = Some d \<and> d \<noteq> [] \<and> findElement d (elements s) = None"
  then have "dragBranch s e = None"
    by (auto simp: dragBranch_None_iff)
  then show "handleMouseMove e s = s"
    by (simp add: handleMouseMove_unchanged setElementsCalls_def)
next
  fix r
  assume a: "(draggedElement s = None \<or> draggedElement s = Some []) \<and>
        resizingElement s = Some r \<and> findElement (rs_id r) (elements s) = None"
  then have "dragBranch s e = Some []"
    by (auto simp: dragBranch_def)
  moreover from a have "resizeBranch s e = []"
    by (auto simp: resizeBranch_Nil_iff)
  ultimately show "handleMouseMove e s = s"
    by (simp add: handleMouseMove_unchanged setElementsCalls_def)
next
  fix d element r
  assume a: "draggedElement s = Some d \<and> d \<noteq> [] \<and>
        findElement d (elements s) = Some element \<and>
        resizingElement s = Some r \<and> findElement (rs_id r) (elements s) = None"
  then have "resizeBranch s e = []"
    by (auto simp: resizeBranch_Nil_iff)
  moreover from a have "dragBranch s e =
           Some [map (\<lambda>el. if el_id el = d
                            then el\<lparr>el_x := max 0 (clientX e - rectLeft e - el_width element / 2),
                                    el_y := max 0 (clientY e - rectTop e - el_height element / 2)\<rparr>
                            else el) (elements s)]"
    using dragBranch_Some by blast
  ultimately show "handleMouseMove e s =
            s\<lparr>elements :=
                map (\<lambda>el. if el_id el = d
                     then el\<lparr>el_x := max 0 (clientX e - rectLeft e - el_width element / 2),
                             el_y := max 0 (clientY e - rectTop e - el_height element / 2)\<rparr>
                     else el) (elements s)\<rparr>"
    by (simp add: handleMouseMove_last setElementsCalls_def)
qed

text \<open>
  Instances: the only element is deleted while it is dragged, and while it is
  resized; the next pointer move changes nothing.
\<close>

theorem stale_id_pointer_move_witness:
  "draggedElement (run initialState
      [AddElement Text 17, MouseDown ''text-17'', DeleteElement ''text-17'']) = Some ''text-17'' \<and>
   findElement ''text-17'' (elements (run initialState
      [AddElement Text 17, MouseDown ''text-17'', DeleteElement ''text-17''])) = None \<and>
   handleMouseMove \<lparr>clientX = 200, clientY = 100, rectLeft = 0, rectTop = 0\<rparr>
     (run initialState [AddElement Text 17, MouseDown ''text-17'', DeleteElement ''text-17''])
     = run initialState [AddElement Text 17, MouseDown ''text-17'', DeleteElement ''text-17''] \<and>
   draggedElement (run initialState
      [AddElement Text 17, ResizeStart ''text-17'' ''se'', DeleteElement ''text-17'']) = None \<and>
   resizingElement (run initialState
      [AddElement Text 17, ResizeStart ''text-17'' ''se'', DeleteElement ''text-17''])
     = Some \<lparr>rs_id = ''text-17'', rs_handle = ''se''\<rparr> \<and>
   findElement ''text-17'' (elements (run initialState
      [AddElement Text 17, ResizeStart ''text-17'' ''se'', DeleteElement ''text-17''])) = None \<and>
   handleMouseMove \<lparr>clientX = 200, clientY = 100, rectLeft = 0, rectTop = 0\<rparr>
     (run initialState [AddElement Text 17, ResizeStart ''text-17'' ''se'', DeleteElement ''text-17''])
     = run initialState [AddElement Text 17, ResizeStart ''text-17'' ''se'', DeleteElement ''text-17'']"
proof -
  let ?e = "\<lparr>clientX = 200, clientY = 100, rectLeft = 0, rectTop = 0\<rparr>"
  let ?s1 = "run initialState [AddElement Text 17, MouseDown ''text-17'', DeleteElement ''text-17'']"
  let ?s2 = "run initialState
      [AddElement Text 17, ResizeStart ''text-17'' ''se'', DeleteElement ''text-17'']"
  have d1: "draggedElement ?s1 = Some ''text-17''"
    by (simp add: run_def handler_defs)
  have f1: "findElement ''text-17'' (elements ?s1) = None"
    by (simp add: run_def handler_defs newId_examples)
  have d2: "draggedElement ?s2 = None"
    by (simp add: run_def handler_defs)
  have r2: "resizingElement ?s2 = Some \<lparr>rs_id = ''text-17'', rs_handle = ''se''\<rparr>"
    by (simp add: run_def handler_defs)
  have f2: "findElement ''text-17'' (elements ?s2) = None"
    by (simp add: run_def handler_defs newId_examples)
  have "handleMouseMove ?e ?s1 = ?s1"
    using stale_id_pointer_move [of ?s1 ?e] d1 f1 by simp
  moreover have "handleMouseMove ?e ?s2 = ?s2"
    using stale_id_pointer_move [of ?s2 ?e] d2 r2 f2 by simp
  ultimately show ?thesis
    using d1 f1 d2 r2 f2 by simp
qed

section \<open>Updating elements\<close>



section \<open>Identifiers of the elements\<close>

text \<open>
  Claim C3, as stated, fails. The id of a new element is built from its type and
  the clock reading alone: two text elements added at the same clock reading get
  the same id, so the ids of the collection are not pairwise distinct; and after an
  element has been removed, an element added at the same reading (the clock of the
  machine can be set back) gets the id of the removed one again.
\<close>

theorem addElement_same_clock_reading_duplicates_id:
  "map el_id (elements (run initialState [AddElement Text 17, AddElement Text 17]))
     = [''text-17'', ''text-17''] \<and>
   \<not> distinct (map el_id (elements (run initialState [AddElement Text 17, AddElement Text 17]))) \<and>
   map el_id (elements (run initialState [AddElement Text 17, DeleteElement ''text-17'']))
     = [] \<and>
   map el_id (elements (run initialState
       [AddElement Text 17, DeleteElement ''text-17'', AddElement Text 17]))
     = [''text-17'']"
  by (simp add: run_def handler_defs newId_examples)

text \<open>The decimal numeral of a clock reading determines the reading.\<close>

lemma digitsValue_snoc:
  "digitsValue r acc (xs @ [c]) =
     digitsValue r acc xs * r + (case digitOf r c of None \<Rightarrow> 0 | Some d \<Rightarrow> d)"
  by (induction xs arbitrary: acc) simp_all

lemma digitOf_digitChar: "d < 10 \<Longrightarrow> digitOf 10 (digitChar d) = Some d"
  by (simp add: digitOf_def digitChar_def)

lemma digitsValue_decimal: "digitsValue 10 0 (decimal n) = n"
proof (induction n rule: decimal.induct)
  case (1 n)
  show ?case
  proof (cases "n < 10")
    case True
    then show ?thesis
      by (subst decimal.simps) (simp add: digitOf_digitChar)
  next
    case False
    with 1 have "digitsValue 10 0 (decimal (n div 10)) = n div 10" by simp
    with False show ?thesis
      by (subst decimal.simps) (simp add: digitsValue_snoc digitOf_digitChar)
  qed
qed

lemma decimal_inj: "decimal m = decimal n \<Longrightarrow> m = n"
  by (metis digitsValue_decimal)

lemma newId_inj: "newId t m = newId t' n \<longleftrightarrow> t = t' \<and> m = n"
  by (cases t; cases t') (auto simp: newId_def typeName_def dest: decimal_inj)

lemma distinct_issuedIds: "distinct (issuedIds acts) \<longleftrightarrow> distinct (addsOf acts)"
  by (auto simp: issuedIds_def distinct_map inj_on_def newId_inj)

lemma subseq_distinct:
  assumes "subseq xs ys" and "distinct ys"
  shows "distinct xs"
  using assms
proof (induction rule: list_emb.induct)
  case (list_emb_Cons xs ys y)
  then show ?case by simp
next
  case (list_emb_Cons2 x y xs ys)
  then have "x \<notin> set xs"
    using list_emb_set [of "(=)" xs ys x] by auto
  with list_emb_Cons2 show ?case by simp
qed simp

text \<open>No handler of the page writes an id; only adding and deleting change the list of ids.\<close>

lemma ids_updatedElements:
  "up_id u = None \<Longrightarrow> map el_id (updatedElements i u els) = map el_id els"
  by (simp add: updatedElements_def spread_def)

lemma ids_updateElement:
  "up_id u = None \<Longrightarrow> map el_id (elements (updateElement i u s)) = map el_id (elements s)"
  by (simp add: updateElement_def ids_updatedElements)

lemma ids_deleteElement:
  "map el_id (elements (deleteElement i s)) = filter (\<lambda>j. j \<noteq> i) (map el_id (elements s))"
  by (simp add: deleteElement_def filter_map comp_def)

lemma ids_dragBranch:
  assumes "dragBranch s e = Some calls"
  shows "\<forall>c \<in> set calls. map el_id c = map el_id (elements s)"
  using assms
  by (auto simp: dragBranch_def Let_def ids_updatedElements no_updates_def
      split: option.splits if_splits)

lemma ids_resizeBranch:
  "\<forall>c \<in> set (resizeBranch s e). map el_id c = map el_id (elements s)"
  by (auto simp: resizeBranch_def Let_def ids_updatedElements no_updates_def
      split: option.splits prod.splits)

lemma ids_handleMouseMove:
  "map el_id (elements (handleMouseMove e s)) = map el_id (elements s)"
proof (cases "setElementsCalls s e = []")
  case True
  then show ?thesis by (simp add: handleMouseMove_def)
next
  case False
  have "\<forall>c \<in> set (setElementsCalls s e). map el_id c = map el_id (elements s)"
    using ids_dragBranch [of s e] ids_resizeBranch [of s e]
    by (cases "dragBranch s e") (auto simp: setElementsCalls_def)
  with False have "map el_id (last (setElementsCalls s e)) = map el_id (elements s)"
    using last_in_set by blast
  with False show ?thesis
    by (simp add: handleMouseMove_last)
qed

lemma ids_step:
  "subseq (map el_id (elements (step s a))) (map el_id (elements s) @ issuedIds [a])"
proof (cases a)
  case (AddElement t now)
  then show ?thesis
    by (simp add: addElement_def issuedIds_def newElement_def)
next
  case (DeleteElement i)
  then show ?thesis
    by (simp add: ids_deleteElement issuedIds_def)
next
  case (MouseMove e)
  then show ?thesis by (simp add: issuedIds_def ids_handleMouseMove)
next
  case (ChangeLabel v)
  then show ?thesis
    by (cases "selected s")
       (simp_all add: issuedIds_def onChangeLabel_def ids_updateElement no_updates_def)
next
  case (ChangeValue v)
  then show ?thesis
    by (cases "selected s")
       (simp_all add: issuedIds_def onChangeValue_def ids_updateElement no_updates_def)
next
  case (ChangeFontSize v)
  then show ?thesis
    by (cases "selected s")
       (simp_all add: issuedIds_def onChangeFontSize_def ids_updateElement no_updates_def)
next
  case (ChangeColor v)
  then show ?thesis
    by (cases "selected s")
       (simp_all add: issuedIds_def onChangeColor_def ids_updateElement no_updates_def)
qed (simp_all add: issuedIds_def handleMouseDown_def handleMouseUp_def handleResizeStart_def
      onChangeWidth_def onChangeHeight_def onChangeQuantity_def)

lemma issuedIds_Cons: "issuedIds (a # acts) = issuedIds [a] @ issuedIds acts"
  by (cases a) (simp_all add: issuedIds_def)

lemma ids_run:
  "subseq (map el_id (elements (run s acts))) (map el_id (elements s) @ issuedIds acts)"
proof (induction acts arbitrary: s)
  case Nil
  then show ?case by (simp add: run_def issuedIds_def)
next
  case (Cons a acts)
  have "subseq (map el_id (elements (run (step s a) acts)))
          (map el_id (elements (step s a)) @ issuedIds acts)"
    using Cons.IH .
  also have "subseq (map el_id (elements (step s a)) @ issuedIds acts)
          ((map el_id (elements s) @ issuedIds [a]) @ issuedIds acts)"
    by (intro list_emb_append_mono ids_step) simp
  finally show ?case
    by (simp add: run_def issuedIds_Cons [of a acts])
qed

text \<open>
  Claim C3, amended. In every state that a sequence of page events reaches from the
  initial state, the ids of the collection are a subsequence of the ids issued by
  the adds of the sequence, in the order of issue: an element enters only by an
  add, at the end, and nothing is reordered. When no two adds of the sequence have
  both the same type and the same clock reading, no id is issued twice, so the ids
  in the collection are pairwise distinct and no id is reused after a removal. An
  add appends one element, a remove filters the list of ids, and an update that
  carries no id key leaves the list of ids as it is.
\<close>

theorem ids_distinct_for_distinct_adds:
  "subseq (map el_id (elements (run initialState acts))) (issuedIds acts) \<and>
   (distinct (addsOf acts) \<longrightarrow>
      distinct (issuedIds acts) \<and> distinct (map el_id (elements (run initialState acts)))) \<and>
   elements (addElement t now s) = elements s @ [newElement t now] \<and>
   el_id (newElement t now) = newId t now \<and>
   map el_id (elements (deleteElement i s)) = filter (\<lambda>j. j \<noteq> i) (map el_id (elements s)) \<and>
   (up_id u = None \<longrightarrow> map el_id (elements (updateElement i u s)) = map el_id (elements s))"
proof -
  have sub: "subseq (map el_id (elements (run initialState acts))) (issuedIds acts)"
    using ids_run [of initialState acts] by (simp add: initialState_def)
  have "distinct (issuedIds acts) \<and> distinct (map el_id (elements (run initialState acts)))"
    if "distinct (addsOf acts)"
  proof -
    from that have "distinct (issuedIds acts)"
      by (simp add: distinct_issuedIds)
    with sub show ?thesis
      using subseq_distinct by blast
  qed
  with sub show ?thesis
    by (simp add: addElement_def newElement_def ids_deleteElement ids_updateElement)
qed

text \<open>
  An instance: a text and a price element are added, the text element is removed
  and another text element is added one clock tick after the first.
\<close>

theorem ids_distinct_for_distinct_adds_witness:
  "distinct (addsOf [AddElement Text 17, AddElement Price 42, DeleteElement ''text-17'',
                     AddElement Text 18]) \<and>
   issuedIds [AddElement Text 17, AddElement Price 42, DeleteElement ''text-17'',
              AddElement Text 18] = [''text-17'', ''price-42'', ''text-18''] \<and>
   map el_id (elements (run initialState
       [AddElement Text 17, AddElement Price 42, DeleteElement ''text-17'', AddElement Text 18]))
     = [''price-42'', ''text-18''] \<and>
   distinct (map el_id (elements (run initialState
       [AddElement Text 17, AddElement Price 42, DeleteElement ''text-17'', AddElement Text 18])))"
proof -
  let ?acts = "[AddElement Text 17, AddElement Price 42, DeleteElement ''text-17'',
                AddElement Text 18]"
  have later: "newId Text 18 = ''text-18''"
    by code_simp
  have adds: "distinct (addsOf ?acts)"
    by simp
  have issued: "issuedIds ?acts = [''text-17'', ''price-42'', ''text-18'']"
    by (simp add: issuedIds_def newId_examples later)
  have ids: "map el_id (elements (run initialState ?acts)) = [''price-42'', ''text-18'']"
    by (simp add: run_def handler_defs newId_examples later)
  from ids_distinct_for_distinct_adds [of ?acts] adds
  have "distinct (map el_id (elements (run initialState ?acts)))"
    by blast
  with adds issued ids show ?thesis by blast
qed

section \<open>Removing elements\<close>

lemma filter_id_absent:
  "findElement i els = None \<Longrightarrow> filter (\<lambda>el. el_id el \<noteq> i) els = els"
  by (simp add: findElement_None_iff)

lemma filter_id_distinct:
  assumes "distinct (map el_id els)" and "findElement i els = Some el"
  shows "\<exists>before after. els = before @ el # after \<and>
           filter (\<lambda>x. el_id x \<noteq> i) els = before @ after"
  using assms
proof (induction els)
  case Nil
  then show ?case by (simp add: findElement_def)
next
  case (Cons a els)
  show ?case
  proof (cases "el_id a = i")
    case True
    with Cons.prems have "a = el" and "\<forall>x \<in> set els. el_id x \<noteq> i"
      by (auto simp: findElement_def image_iff)
    then have "a # els = [] @ el # els \<and> filter (\<lambda>x. el_id x \<noteq> i) (a # els) = [] @ els"
      using True by simp
    then show ?thesis by blast
  next
    case False
    with Cons.prems have "distinct (map el_id els)" and "findElement i els = Some el"
      by (auto simp: findElement_def)
    with Cons.IH obtain before after where
      "els = before @ el # after" and "filter (\<lambda>x. el_id x \<noteq> i) els = before @ after"
      by blast
    with False have "a # els = (a # before) @ el # after \<and>
        filter (\<lambda>x. el_id x \<noteq> i) (a # els) = (a # before) @ after"
      by simp
    then show ?thesis by blast
  qed
qed

text \<open>
  In every state that the page reaches the selection is empty or names an element
  of the list: every handler that sets the selection receives the id of a listed
  element, an added element is selected, and \<^verbatim>\<open>deleteElement\<close> clears the
  selection when it removes the elements with the selected id.
\<close>

lemma findElement_Some_iff:
  "findElement i els \<noteq> None \<longleftrightarrow> i \<in> set (map el_id els)"
  "(\<exists>el. findElement i els = Some el) \<longleftrightarrow> i \<in> set (map el_id els)"
  using findElement_None_iff [of i els] by auto

lemma selectionListed_ids:
  assumes "selectionListed s"
    and "selectedElement s' = selectedElement s"
    and "map el_id (elements s') = map el_id (elements s)"
  shows "selectionListed s'"
  using assms by (simp add: selectionListed_def findElement_Some_iff split: option.splits)

lemma selectedElement_handleMouseMove:
  "selectedElement (handleMouseMove e s) = selectedElement s"
  by (simp add: handleMouseMove_last)

lemma selectedElement_updateElement:
  "selectedElement (updateElement i u s) = selectedElement s"
  by (simp add: updateElement_def)

lemma selectionListed_step:
  assumes "selectionListed s" and "enabled s a"
  shows "selectionListed (step s a)"
proof (cases a)
  case (AddElement t now)
  then show ?thesis
    by (simp add: selectionListed_def findElement_Some_iff addElement_def)
next
  case (DeleteElement i)
  show ?thesis
  proof (cases "selectedElement s = Some i")
    case True
    with DeleteElement show ?thesis
      by (simp add: selectionListed_def deleteElement_def)
  next
    case False
    have "selectionListed (deleteElement i s)"
    proof (cases "selectedElement s")
      case None
      then show ?thesis by (simp add: selectionListed_def deleteElement_def)
    next
      case (Some j)
      with False have "j \<noteq> i" by simp
      moreover from Some assms(1) have "j \<in> set (map el_id (elements s))"
        by (simp add: selectionListed_def findElement_Some_iff)
      ultimately have "j \<in> set (map el_id (elements (deleteElement i s)))"
        by (simp add: ids_deleteElement)
      moreover from Some \<open>j \<noteq> i\<close> have "selectedElement (deleteElement i s) = Some j"
        by (simp add: deleteElement_def)
      ultimately show ?thesis
        by (simp add: selectionListed_def findElement_Some_iff)
    qed
    with DeleteElement show ?thesis by simp
  qed
next
  case (MouseDown i)
  with assms(2) show ?thesis
    by (simp add: selectionListed_def handleMouseDown_def)
next
  case (MouseMove e)
  then show ?thesis
    using selectionListed_ids [OF assms(1) selectedElement_handleMouseMove ids_handleMouseMove]
    by simp
next
  case MouseUp
  with selectionListed_ids [OF assms(1), of "step s a"] show ?thesis
    by (simp add: handleMouseUp_def)
next
  case (ResizeStart i h)
  with assms(2) show ?thesis
    by (simp add: selectionListed_def handleResizeStart_def)
next
  case (CardClick i)
  with assms(2) show ?thesis
    by (simp add: selectionListed_def)
next
  case (ChangeLabel v)
  have "selectionListed (onChangeLabel v s)"
    using assms(1)
    by (cases "selected s")
       (auto simp: onChangeLabel_def no_updates_def
          intro: selectionListed_ids [OF _ selectedElement_updateElement ids_updateElement])
  with ChangeLabel show ?thesis by simp
next
  case (ChangeValue v)
  have "selectionListed (onChangeValue v s)"
    using assms(1)
    by (cases "selected s")
       (auto simp: onChangeValue_def no_updates_def
          intro: selectionListed_ids [OF _ selectedElement_updateElement ids_updateElement])
  with ChangeValue show ?thesis by simp
next
  case (ChangeFontSize v)
  have "selectionListed (onChangeFontSize v s)"
    using assms(1)
    by (cases "selected s")
       (auto simp: onChangeFontSize_def no_updates_def
          intro: selectionListed_ids [OF _ selectedElement_updateElement ids_updateElement])
  with ChangeFontSize show ?thesis by simp
next
  case (ChangeColor v)
  have "selectionListed (onChangeColor v s)"
    using assms(1)
    by (cases "selected s")
       (auto simp: onChangeColor_def no_updates_def
          intro: selectionListed_ids [OF _ selectedElement_updateElement ids_updateElement])
  with ChangeColor show ?thesis by simp
next
  case (ChangeWidth v)
  with selectionListed_ids [OF assms(1), of "step s a"] show ?thesis
    by (simp add: onChangeWidth_def)
next
  case (ChangeHeight v)
  with selectionListed_ids [OF assms(1), of "step s a"] show ?thesis
    by (simp add: onChangeHeight_def)
next
  case (ChangeQuantity v)
  with selectionListed_ids [OF assms(1), of "step s a"] show ?thesis
    by (simp add: onChangeQuantity_def)
next
  case (SetShowPreview b)
  with selectionListed_ids [OF assms(1), of "step s a"] show ?thesis
    by simp
qed

lemma selectionListed_run:
  "selectionListed s \<Longrightarrow> enabledRun s acts \<Longrightarrow> selectionListed (run s acts)"
proof (induction acts arbitrary: s)
  case Nil
  then show ?case by (simp add: run_def)
next
  case (Cons a acts)
  from Cons.prems have "selectionListed (step s a)" and "enabledRun (step s a) acts"
    by (simp_all add: selectionListed_step)
  then have "selectionListed (run (step s a) acts)"
    by (rule Cons.IH)
  then show ?case by (simp add: run_def)
qed

lemma selectionListed_initialState: "selectionListed initialState"
  by (simp add: selectionListed_def initialState_def)

text \<open>
  In such a state the selected id is \<open>i\<close> exactly when the selected element, the
  element found for the selected id, has the id \<open>i\<close>.
\<close>

lemma selected_id_iff:
  assumes "selectionListed s"
  shows "selectedElement s = Some i \<longleftrightarrow> (\<exists>el. selected s = Some el \<and> el_id el = i)"
proof
  assume sel: "selectedElement s = Some i"
  with assms obtain el where "findElement i (elements s) = Some el"
    by (auto simp: selectionListed_def)
  with sel show "\<exists>el. selected s = Some el \<and> el_id el = i"
    using findElement_Some_D [of i "elements s" el] by (simp add: selected_def)
next
  assume "\<exists>el. selected s = Some el \<and> el_id el = i"
  then obtain el where el: "selected s = Some el" "el_id el = i" by blast
  then obtain j where j: "selectedElement s = Some j" "findElement j (elements s) = Some el"
    by (auto simp: selected_def split: option.splits)
  with el show "selectedElement s = Some i"
    using findElement_Some_D [of j "elements s" el] by simp
qed

text \<open>
  Claim C8, as stated, fails where it says that exactly the element with the id is
  deleted: two elements of one type added at the same clock reading have the same
  id (see C3), and the delete button of either of them removes both. In the run
  below the label of the first element is edited before the second is added, so the
  two elements differ; the delete button then empties the list.
\<close>

theorem deleteElement_removes_both_duplicates:
  "enabledRun initialState
     [AddElement Text 17, ChangeLabel ''A'', AddElement Text 17, DeleteElement ''text-17''] \<and>
   map el_id (elements (run initialState
     [AddElement Text 17, ChangeLabel ''A'', AddElement Text 17])) = [''text-17'', ''text-17''] \<and>
   map el_label (elements (run initialState
     [AddElement Text 17, ChangeLabel ''A'', AddElement Text 17])) = [''A'', ''Nome''] \<and>
   elements (run initialState
     [AddElement Text 17, ChangeLabel ''A'', AddElement Text 17, DeleteElement ''text-17'']) = []"
  by (simp add: run_def handler_defs newId_examples onChangeLabel_def)

text \<open>
  Claim C8, amended. In every state \<open>s\<close> that a sequence of page events reaches,
  \<open>deleteElement i\<close> keeps exactly the elements whose id is not \<open>i\<close>, in their order:
  it deletes every element with the id \<open>i\<close>, and when the ids are pairwise distinct
  and an element has the id \<open>i\<close>, that one element is cut out of the list. The
  selection is cleared if and only if the selected element has the id \<open>i\<close>, that is,
  is among the removed ones, and stays as it is otherwise. When no element has the
  id \<open>i\<close> the state after the call is the state before it. The other state variables
  are never touched.
\<close>

theorem deleteElement_removes_all_with_id:
  assumes "enabledRun initialState acts" and "s = run initialState acts"
  shows
  "elements (deleteElement i s) = filter (\<lambda>el. el_id el \<noteq> i) (elements s) \<and>
   (distinct (map el_id (elements s)) \<longrightarrow>
      (\<forall>el. findElement i (elements s) = Some el \<longrightarrow>
         (\<exists>before after. elements s = before @ el # after \<and>
                          elements (deleteElement i s) = before @ after))) \<and>
   selectedElement (deleteElement i s) =
     (if \<exists>el. selected s = Some el \<and> el_id el = i then None else selectedElement s) \<and>
   (findElement i (elements s) = None \<longrightarrow> deleteElement i s = s) \<and>
   draggedElement (deleteElement i s) = draggedElement s \<and>
   resizingElement (deleteElement i s) = resizingElement s \<and>
   labelConfig (deleteElement i s) = labelConfig s \<and>
   showPreview (deleteElement i s) = showPreview s"
proof -
  have listed: "selectionListed s"
    unfolding assms(2) using selectionListed_initialState assms(1) by (rule selectionListed_run)
  have sel: "selectedElement (deleteElement i s) =
     (if \<exists>el. selected s = Some el \<and> el_id el = i then None else selectedElement s)"
    using selected_id_iff [OF listed, of i] by (simp add: deleteElement_def)
  have absent: "findElement i (elements s) = None \<longrightarrow> deleteElement i s = s"
  proof
    assume none: "findElement i (elements s) = None"
    with listed have "selectedElement s \<noteq> Some i"
      by (auto simp: selectionListed_def)
    with none show "deleteElement i s = s"
      by (simp add: deleteElement_def filter_id_absent)
  qed
  have cut: "distinct (map el_id (elements s)) \<longrightarrow>
      (\<forall>el. findElement i (elements s) = Some el \<longrightarrow>
         (\<exists>before after. elements s = before @ el # after \<and>
                          elements (deleteElement i s) = before @ after))"
    using filter_id_distinct [of "elements s" i] by (simp add: deleteElement_def)
  have rest: "elements (deleteElement i s) = filter (\<lambda>el. el_id el \<noteq> i) (elements s) \<and>
   draggedElement (deleteElement i s) = draggedElement s \<and>
   resizingElement (deleteElement i s) = resizingElement s \<and>
   labelConfig (deleteElement i s) = labelConfig s \<and>
   showPreview (deleteElement i s) = showPreview s"
    by (simp add: deleteElement_def)
  from rest cut sel absent show ?thesis by blast
qed

text \<open>
  Instances on the store reached by adding a text and a price element, the price
  element being selected: removing the text element keeps the selection, removing
  an unknown id changes nothing, removing the price element clears the selection.
\<close>

theorem deleteElement_removes_all_with_id_witness:
  "enabledRun initialState [AddElement Text 17, AddElement Price 42] \<and>
   distinct (map el_id (elements (run initialState [AddElement Text 17, AddElement Price 42]))) \<and>
   findElement ''text-17'' (elements (run initialState [AddElement Text 17, AddElement Price 42]))
     = Some (newElement Text 17) \<and>
   elements (deleteElement ''text-17'' (run initialState [AddElement Text 17, AddElement Price 42]))
     = [newElement Price 42] \<and>
   selectedElement (deleteElement ''text-17'' (run initialState [AddElement Text 17, AddElement Price 42]))
     = Some ''price-42'' \<and>
   findElement ''ghost'' (elements (run initialState [AddElement Text 17, AddElement Price 42])) = None \<and>
   deleteElement ''ghost'' (run initialState [AddElement Text 17, AddElement Price 42])
     = run initialState [AddElement Text 17, AddElement Price 42] \<and>
   selectedElement (deleteElement ''price-42'' (run initialState [AddElement Text 17, AddElement Price 42]))
     = None"
proof -
  let ?acts = "[AddElement Text 17, AddElement Price 42]"
  have en: "enabledRun initialState ?acts" by simp
  have s: "run initialState ?acts = addElement Price 42 (addElement Text 17 initialState)"
    by (simp add: run_def)
  show ?thesis
    using deleteElement_removes_all_with_id [OF en refl, of "''text-17''"]
      deleteElement_removes_all_with_id [OF en refl, of "''ghost''"]
      deleteElement_removes_all_with_id [OF en refl, of "''price-42''"]
    unfolding s by (simp add: handler_defs newId_examples)
qed


section \<open>The anchored corner of a resize\<close>

text \<open>With the identity for the rounding, the rounded handler is the exact one.\<close>

lemma resizeGeometryRounded_exact:
  "resizeGeometryRounded (\<lambda>v. v) h mx my el = resizeGeometry h mx my el"
  by (simp add: resizeGeometryRounded_def resizeGeometry_def)

lemma dragBranchRounded_exact: "dragBranchRounded (\<lambda>v. v) s e = dragBranch s e"
  unfolding dragBranchRounded_def dragBranch_def ..

lemma resizeBranchRounded_exact: "resizeBranchRounded (\<lambda>v. v) s e = resizeBranch s e"
  unfolding resizeBranchRounded_def resizeBranch_def resizeGeometryRounded_exact ..

lemma handleMouseMoveRounded_exact:
  "handleMouseMoveRounded (\<lambda>v. v) e s = handleMouseMove e s"
  unfolding handleMouseMoveRounded_def handleMouseMove_def setElementsCallsRounded_def
    setElementsCalls_def dragBranchRounded_exact resizeBranchRounded_exact ..

lemma handleMouseMoveRounded_last:
  "handleMouseMoveRounded rnd e s =
     (if setElementsCallsRounded rnd s e = [] then s
      else s\<lparr>elements := last (setElementsCallsRounded rnd s e)\<rparr>)"
  by (simp add: handleMouseMoveRounded_def split: list.splits)

lemma stepRounded_exact: "stepRounded (\<lambda>v. v) s a = step s a"
  by (cases a) (simp_all add: handleMouseMoveRounded_exact)

lemma runRounded_exact: "runRounded (\<lambda>v. v) s acts = run s acts"
  by (simp add: runRounded_def run_def stepRounded_exact [abs_def])

lemma resizeBranchRounded_Some:
  assumes "resizingElement s = Some r" and "findElement (rs_id r) (elements s) = Some old"
    and "resizeGeometryRounded rnd (rs_handle r) (rnd (clientX e - rectLeft e))
           (rnd (clientY e - rectTop e)) old = (w, ht, x, y)"
  shows "resizeBranchRounded rnd s e =
           [updatedElements (rs_id r)
              (no_updates\<lparr>up_width := Some w, up_height := Some ht, up_x := Some x, up_y := Some y\<rparr>)
              (elements s)]"
  using assms by (simp add: resizeBranchRounded_def Let_def)

lemma handleMouseMoveRounded_resize:
  assumes "resizingElement s = Some r" and "findElement (rs_id r) (elements s) = Some old"
    and "dragBranchRounded rnd s e \<noteq> None"
    and "resizeGeometryRounded rnd (rs_handle r) (rnd (clientX e - rectLeft e))
           (rnd (clientY e - rectTop e)) old = (w, ht, x, y)"
  shows "handleMouseMoveRounded rnd e s =
           s\<lparr>elements := updatedElements (rs_id r)
              (no_updates\<lparr>up_width := Some w, up_height := Some ht, up_x := Some x, up_y := Some y\<rparr>)
              (elements s)\<rparr>"
  using assms(3) resizeBranchRounded_Some [OF assms(1,2,4)]
  by (auto simp: handleMouseMoveRounded_last setElementsCallsRounded_def)

text \<open>
  The horizontal part of the \<^verbatim>\<open>sw\<close> and \<^verbatim>\<open>nw\<close> cases, as a fact about numbers:
  \<open>r\<close> is the rounded right edge, \<open>m\<close> the pointer position, \<open>c\<close> the minimum width.
  The new left edge plus the new width is \<open>r\<close> up to the rounding error of one of the
  two differences. The vertical part of \<^verbatim>\<open>ne\<close> and \<^verbatim>\<open>nw\<close> is the same fact.
\<close>

lemma anchored_edge_bound:
  fixes r m c :: real
  shows "\<bar>min m (rnd (r - c)) + max c (rnd (r - m)) - r\<bar>
           \<le> max (roundingError rnd (r - m)) (roundingError rnd (r - c))"
  unfolding roundingError_def by (cases "m \<le> rnd (r - c)"; cases "c \<le> rnd (r - m)") linarith+

lemma anchored_edge:
  fixes a b m c :: real
  shows "\<bar>min m (rnd (rnd (a + b) - c)) + max c (rnd (rnd (a + b) - m)) - (a + b)\<bar>
           \<le> roundingError rnd (a + b) +
              max (roundingError rnd (rnd (a + b) - m)) (roundingError rnd (rnd (a + b) - c))"
proof -
  have "\<bar>rnd (a + b) - (a + b)\<bar> = roundingError rnd (a + b)"
    by (simp add: roundingError_def)
  with anchored_edge_bound [of m rnd "rnd (a + b)" c] show ?thesis
    by linarith
qed

lemma resizeGeometryRounded_anchor:
  assumes "resizeGeometryRounded rnd h mx my el = (w, ht, x, y)"
  shows "h = ''se'' \<longrightarrow> x = el_x el \<and> y = el_y el"
    and "h = ''sw'' \<longrightarrow> y = el_y el"
    and "h = ''ne'' \<longrightarrow> x = el_x el"
    and "h = ''sw'' \<or> h = ''nw'' \<longrightarrow>
           \<bar>x + w - (el_x el + el_width el)\<bar>
             \<le> roundingError rnd (el_x el + el_width el) +
                max (roundingError rnd (rnd (el_x el + el_width el) - mx))
                    (roundingError rnd (rnd (el_x el + el_width el) - 30))"
    and "h = ''ne'' \<or> h = ''nw'' \<longrightarrow>
           \<bar>y + ht - (el_y el + el_height el)\<bar>
             \<le> roundingError rnd (el_y el + el_height el) +
                max (roundingError rnd (rnd (el_y el + el_height el) - my))
                    (roundingError rnd (rnd (el_y el + el_height el) - 20))"
proof -
  show "h = ''se'' \<longrightarrow> x = el_x el \<and> y = el_y el"
    and "h = ''sw'' \<longrightarrow> y = el_y el" and "h = ''ne'' \<longrightarrow> x = el_x el"
    using assms by (auto simp: resizeGeometryRounded_def)
  show "h = ''sw'' \<or> h = ''nw'' \<longrightarrow>
           \<bar>x + w - (el_x el + el_width el)\<bar>
             \<le> roundingError rnd (el_x el + el_width el) +
                max (roundingError rnd (rnd (el_x el + el_width el) - mx))
                    (roundingError rnd (rnd (el_x el + el_width el) - 30))"
    using assms anchored_edge [of mx rnd "el_x el" "el_width el" 30]
    by (auto simp: resizeGeometryRounded_def)
  show "h = ''ne'' \<or> h = ''nw'' \<longrightarrow>
           \<bar>y + ht - (el_y el + el_height el)\<bar>
             \<le> roundingError rnd (el_y el + el_height el) +
                max (roundingError rnd (rnd (el_y el + el_height el) - my))
                    (roundingError rnd (rnd (el_y el + el_height el) - 20))"
    using assms anchored_edge [of my rnd "el_y el" "el_height el" 20]
    by (auto simp: resizeGeometryRounded_def)
qed

text \<open>
  The roundings of the run below. The left edge of the canvas is at 30.02, that is
  at the double \<open>8449878800853893 / 2^48\<close>. The arguments are written as single
  fractions, \<open>36304642496140411 / 281474976710656\<close> being
  \<open>159 - 8449878800853893 / 2^48\<close> and so on.
\<close>

lemma dbl_drag_pointer: "roundToDouble (36304642496140411 / 281474976710656) = 4538080312017551 / 2 ^ 45"
  using roundToDouble_near [of 7 "36304642496140411 / 281474976710656" 4538080312017551] by simp

lemma dbl_drag_x: "roundToDouble (2778861707575951 / 35184372088832) = 2778861707575951 / 2 ^ 45"
  using roundToDouble_near [of 6 "2778861707575951 / 35184372088832" 5557723415151902] by simp

lemma dbl_resize_pointer: "roundToDouble (9283044731917435 / 281474976710656) = 2320761182979359 / 2 ^ 46"
  using roundToDouble_tie_odd [of 5 "9283044731917435 / 281474976710656" 4641522365958717] by simp

lemma dbl_right_edge: "roundToDouble (6297298916459151 / 35184372088832) = 6297298916459151 / 2 ^ 45"
  using roundToDouble_near [of 7 "6297298916459151 / 35184372088832" 6297298916459151] by simp

lemma dbl_new_width: "roundToDouble (10273836649938943 / 70368744177664) = 146"
  using roundToDouble_tie_odd [of 7 "10273836649938943 / 70368744177664" 5136918324969471] by simp

lemma dbl_right_minus_30: "roundToDouble (5241767753794191 / 35184372088832) = 5241767753794191 / 2 ^ 45"
  using roundToDouble_near [of 7 "5241767753794191 / 35184372088832" 5241767753794191] by simp

lemma dbl_new_right_edge: "roundToDouble (12594597832918303 / 70368744177664) = 393581182278697 / 2 ^ 41"
  using roundToDouble_tie_odd [of 7 "12594597832918303 / 70368744177664" 6297298916459151] by simp

lemmas rounded_defs =
  runRounded_def handleMouseMoveRounded_def setElementsCallsRounded_def dragBranchRounded_def
  resizeBranchRounded_def resizeGeometryRounded_def roundingError_def

lemmas dbl_facts =
  dbl_drag_pointer dbl_drag_x dbl_resize_pointer dbl_right_edge dbl_new_width
  dbl_right_minus_30 dbl_new_right_edge

text \<open>
  Claim C2, as stated, fails in two ways.

  In double arithmetic the recomputed edge moves. A text element is added and
  dragged by a pointer at client x = 159 over a canvas whose left edge is at 30.02;
  it lands at x = 78.97999999999999 with width 100, its right edge at 178.98. Its
  south-west handle is then moved to client x = 63: the new x is
  32.980000000000004 and the new width 146, because the difference between the
  right edge and the pointer lies half-way between two doubles and is rounded. The
  sum of the new x and width exceeds the old one by \<open>2^(-46)\<close>, and rounded to a
  double it is 178.98000000000002.

  With two elements of the same id (see C3) the geometry of the first is given to
  both: the first element is dragged to x = 60, a second text element is added at
  the same clock reading, and the south-west handle is moved to x = 100. The right
  edge of the first element stays at 160; that of the second jumps from 110 to 160.
  All numbers of this run are integers, so no operation rounds.
\<close>

theorem resize_moves_anchored_edge:
  "map el_x (elements (runRounded roundToDouble initialState
     [AddElement Text 17, MouseDown ''text-17'',
      MouseMove \<lparr>clientX = 159, clientY = 25, rectLeft = 8449878800853893 / 2 ^ 48, rectTop = 0\<rparr>,
      MouseUp, ResizeStart ''text-17'' ''sw''])) = [2778861707575951 / 2 ^ 45] \<and>
   map el_width (elements (runRounded roundToDouble initialState
     [AddElement Text 17, MouseDown ''text-17'',
      MouseMove \<lparr>clientX = 159, clientY = 25, rectLeft = 8449878800853893 / 2 ^ 48, rectTop = 0\<rparr>,
      MouseUp, ResizeStart ''text-17'' ''sw''])) = [100] \<and>
   map el_x (elements (runRounded roundToDouble initialState
     [AddElement Text 17, MouseDown ''text-17'',
      MouseMove \<lparr>clientX = 159, clientY = 25, rectLeft = 8449878800853893 / 2 ^ 48, rectTop = 0\<rparr>,
      MouseUp, ResizeStart ''text-17'' ''sw'',
      MouseMove \<lparr>clientX = 63, clientY = 40, rectLeft = 8449878800853893 / 2 ^ 48, rectTop = 0\<rparr>]))
     = [2320761182979359 / 2 ^ 46] \<and>
   map el_width (elements (runRounded roundToDouble initialState
     [AddElement Text 17, MouseDown ''text-17'',
      MouseMove \<lparr>clientX = 159, clientY = 25, rectLeft = 8449878800853893 / 2 ^ 48, rectTop = 0\<rparr>,
      MouseUp, ResizeStart ''text-17'' ''sw'',
      MouseMove \<lparr>clientX = 63, clientY = 40, rectLeft = 8449878800853893 / 2 ^ 48, rectTop = 0\<rparr>]))
     = [146] \<and>
   (2778861707575951 / 2 ^ 45 + 100 :: real) = 12594597832918302 / 2 ^ 46 \<and>
   (2320761182979359 / 2 ^ 46 + 146 :: real) = 12594597832918303 / 2 ^ 46 \<and>
   roundToDouble (2778861707575951 / 2 ^ 45 + 100) = 6297298916459151 / 2 ^ 45 \<and>
   roundToDouble (2320761182979359 / 2 ^ 46 + 146) = 6297298916459152 / 2 ^ 45 \<and>
   enabledRun initialState
     [AddElement Text 17, MouseDown ''text-17'',
      MouseMove \<lparr>clientX = 110, clientY = 25, rectLeft = 0, rectTop = 0\<rparr>,
      MouseUp, AddElement Text 17, ResizeStart ''text-17'' ''sw'',
      MouseMove \<lparr>clientX = 100, clientY = 40, rectLeft = 0, rectTop = 0\<rparr>] \<and>
   map el_id (elements (runRounded roundToDouble initialState
     [AddElement Text 17, MouseDown ''text-17'',
      MouseMove \<lparr>clientX = 110, clientY = 25, rectLeft = 0, rectTop = 0\<rparr>,
      MouseUp, AddElement Text 17, ResizeStart ''text-17'' ''sw''])) = [''text-17'', ''text-17''] \<and>
   map el_x (elements (runRounded roundToDouble initialState
     [AddElement Text 17, MouseDown ''text-17'',
      MouseMove \<lparr>clientX = 110, clientY = 25, rectLeft = 0, rectTop = 0\<rparr>,
      MouseUp, AddElement Text 17, ResizeStart ''text-17'' ''sw''])) = [60, 10] \<and>
   map el_width (elements (runRounded roundToDouble initialState
     [AddElement Text 17, MouseDown ''text-17'',
      MouseMove \<lparr>clientX = 110, clientY = 25, rectLeft = 0, rectTop = 0\<rparr>,
      MouseUp, AddElement Text 17, ResizeStart ''text-17'' ''sw''])) = [100, 100] \<and>
   map el_x (elements (runRounded roundToDouble initialState
     [AddElement Text 17, MouseDown ''text-17'',
      MouseMove \<lparr>clientX = 110, clientY = 25, rectLeft = 0, rectTop = 0\<rparr>,
      MouseUp, AddElement Text 17, ResizeStart ''text-17'' ''sw'',
      MouseMove \<lparr>clientX = 100, clientY = 40, rectLeft = 0, rectTop = 0\<rparr>])) = [100, 100] \<and>
   map el_width (elements (runRounded roundToDouble initialState
     [AddElement Text 17, MouseDown ''text-17'',
      MouseMove \<lparr>clientX = 110, clientY = 25, rectLeft = 0, rectTop = 0\<rparr>,
      MouseUp, AddElement Text 17, ResizeStart ''text-17'' ''sw'',
      MouseMove \<lparr>clientX = 100, clientY = 40, rectLeft = 0, rectTop = 0\<rparr>])) = [60, 60] \<and>
   runRounded roundToDouble initialState
     [AddElement Text 17, MouseDown ''text-17'',
      MouseMove \<lparr>clientX = 110, clientY = 25, rectLeft = 0, rectTop = 0\<rparr>,
      MouseUp, AddElement Text 17, ResizeStart ''text-17'' ''sw'',
      MouseMove \<lparr>clientX = 100, clientY = 40, rectLeft = 0, rectTop = 0\<rparr>]
     = run initialState
     [AddElement Text 17, MouseDown ''text-17'',
      MouseMove \<lparr>clientX = 110, clientY = 25, rectLeft = 0, rectTop = 0\<rparr>,
      MouseUp, AddElement Text 17, ResizeStart ''text-17'' ''sw'',
      MouseMove \<lparr>clientX = 100, clientY = 40, rectLeft = 0, rectTop = 0\<rparr>]"
  by (simp add: run_def handler_defs newId_examples rounded_defs roundToDouble_integers
      dbl_facts Let_def)

lemma distinct_ids_same_element:
  assumes "distinct (map el_id els)" and "a \<in> set els" and "b \<in> set els"
    and "el_id a = el_id b"
  shows "a = b"
  using assms by (meson distinct_map inj_onD)

text \<open>
  Claim C2, amended. A pointer move that reaches the resize block gives every
  element with the resized id the geometry computed from \<open>old\<close>, the first element
  found for that id (with pairwise distinct ids, the only one), and leaves every
  other element as it is. Of the corner opposite to the handle, the coordinates
  that the handler copies stay exactly where they were: x and y with \<^verbatim>\<open>se\<close>, y
  with \<^verbatim>\<open>sw\<close>, x with \<^verbatim>\<open>ne\<close>. The edges that the handler recomputes stay where they
  were up to the rounding of the operations that compute them: with \<^verbatim>\<open>sw\<close> and
  \<^verbatim>\<open>nw\<close> the new x + width differs from the old one by at most the rounding error
  of the old sum plus the larger of the rounding errors of the two differences
  taken from it (the pointer position and the minimum width 30); with \<^verbatim>\<open>ne\<close> and
  \<^verbatim>\<open>nw\<close> the same holds for y + height, with the minimum height 20. No case
  distinction on the pointer position is made: the bounds hold with the clamp to
  30 by 20 active or not. They hold for every rounding \<open>rnd\<close>, that of doubles among
  them; when no operation rounds, the edges are exactly fixed.
\<close>

theorem resize_anchor_fixed_up_to_rounding:
  assumes "resizingElement s = Some r"
    and "findElement (rs_id r) (elements s) = Some old"
    and "dragBranchRounded rnd s e \<noteq> None"
    and "s' = handleMouseMoveRounded rnd e s"
  shows
  "map el_id (elements s') = map el_id (elements s) \<and>
   (\<forall>k < length (elements s).
      el_id (elements s ! k) \<noteq> rs_id r \<longrightarrow> elements s' ! k = elements s ! k) \<and>
   (distinct (map el_id (elements s)) \<longrightarrow>
      (\<forall>k < length (elements s). el_id (elements s ! k) = rs_id r \<longrightarrow> elements s ! k = old)) \<and>
   (\<forall>new \<in> set (elements s'). el_id new = rs_id r \<longrightarrow>
      (rs_handle r = ''se'' \<longrightarrow> el_x new = el_x old \<and> el_y new = el_y old) \<and>
      (rs_handle r = ''sw'' \<longrightarrow> el_y new = el_y old) \<and>
      (rs_handle r = ''ne'' \<longrightarrow> el_x new = el_x old) \<and>
      (rs_handle r = ''sw'' \<or> rs_handle r = ''nw'' \<longrightarrow>
         \<bar>el_x new + el_width new - (el_x old + el_width old)\<bar>
           \<le> roundingError rnd (el_x old + el_width old) +
              max (roundingError rnd
                     (rnd (el_x old + el_width old) - rnd (clientX e - rectLeft e)))
                  (roundingError rnd (rnd (el_x old + el_width old) - 30))) \<and>
      (rs_handle r = ''ne'' \<or> rs_handle r = ''nw'' \<longrightarrow>
         \<bar>el_y new + el_height new - (el_y old + el_height old)\<bar>
           \<le> roundingError rnd (el_y old + el_height old) +
              max (roundingError rnd
                     (rnd (el_y old + el_height old) - rnd (clientY e - rectTop e)))
                  (roundingError rnd (rnd (el_y old + el_height old) - 20))) \<and>
      ((\<forall>v. rnd v = v) \<longrightarrow>
         (rs_handle r = ''sw'' \<or> rs_handle r = ''nw'' \<longrightarrow>
            el_x new + el_width new = el_x old + el_width old) \<and>
         (rs_handle r = ''ne'' \<or> rs_handle r = ''nw'' \<longrightarrow>
            el_y new + el_height new = el_y old + el_height old)))"
proof -
  obtain w ht x y where g:
    "resizeGeometryRounded rnd (rs_handle r) (rnd (clientX e - rectLeft e))
       (rnd (clientY e - rectTop e)) old = (w, ht, x, y)"
    by (metis prod_cases4)
  let ?u = "no_updates\<lparr>up_width := Some w, up_height := Some ht, up_x := Some x, up_y := Some y\<rparr>"
  have s': "s' = s\<lparr>elements := updatedElements (rs_id r) ?u (elements s)\<rparr>"
    unfolding assms(4) using assms(1,2,3) g by (rule handleMouseMoveRounded_resize)
  have ids: "map el_id (elements s') = map el_id (elements s)"
    by (simp add: s' ids_updatedElements no_updates_def)
  have others: "\<forall>k < length (elements s).
      el_id (elements s ! k) \<noteq> rs_id r \<longrightarrow> elements s' ! k = elements s ! k"
    by (simp add: s' updatedElements_def)
  have only: "distinct (map el_id (elements s)) \<longrightarrow>
      (\<forall>k < length (elements s). el_id (elements s ! k) = rs_id r \<longrightarrow> elements s ! k = old)"
  proof (intro impI allI)
    fix k
    assume d: "distinct (map el_id (elements s))" and k: "k < length (elements s)"
      and i: "el_id (elements s ! k) = rs_id r"
    from findElement_Some_D [OF assms(2)] have "old \<in> set (elements s)" "el_id old = rs_id r"
      by simp_all
    with d k i show "elements s ! k = old"
      using distinct_ids_same_element [of "elements s" "elements s ! k" old] by simp
  qed
  have geometry: "\<forall>new \<in> set (elements s'). el_id new = rs_id r \<longrightarrow>
      el_width new = w \<and> el_height new = ht \<and> el_x new = x \<and> el_y new = y"
    using resized_fields [where i = "rs_id r" and w = w and ht = ht and x = x and y = y
        and els = "elements s"]
    by (simp add: s')
  note a = resizeGeometryRounded_anchor [OF g]
  have exact: "(\<forall>v. rnd v = v) \<longrightarrow>
         (rs_handle r = ''sw'' \<or> rs_handle r = ''nw'' \<longrightarrow> x + w = el_x old + el_width old) \<and>
         (rs_handle r = ''ne'' \<or> rs_handle r = ''nw'' \<longrightarrow> y + ht = el_y old + el_height old)"
  proof
    assume "\<forall>v. rnd v = v"
    then have "\<And>v. roundingError rnd v = 0"
      by (simp add: roundingError_def)
    with a(4,5) show "(rs_handle r = ''sw'' \<or> rs_handle r = ''nw'' \<longrightarrow>
            x + w = el_x old + el_width old) \<and>
         (rs_handle r = ''ne'' \<or> rs_handle r = ''nw'' \<longrightarrow> y + ht = el_y old + el_height old)"
      by simp
  qed
  have anchor: "\<forall>new \<in> set (elements s'). el_id new = rs_id r \<longrightarrow>
      (rs_handle r = ''se'' \<longrightarrow> el_x new = el_x old \<and> el_y new = el_y old) \<and>
      (rs_handle r = ''sw'' \<longrightarrow> el_y new = el_y old) \<and>
      (rs_handle r = ''ne'' \<longrightarrow> el_x new = el_x old) \<and>
      (rs_handle r = ''sw'' \<or> rs_handle r = ''nw'' \<longrightarrow>
         \<bar>el_x new + el_width new - (el_x old + el_width old)\<bar>
           \<le> roundingError rnd (el_x old + el_width old) +
              max (roundingError rnd
                     (rnd (el_x old + el_width old) - rnd (clientX e - rectLeft e)))
                  (roundingError rnd (rnd (el_x old + el_width old) - 30))) \<and>
      (rs_handle r = ''ne'' \<or> rs_handle r = ''nw'' \<longrightarrow>
         \<bar>el_y new + el_height new - (el_y old + el_height old)\<bar>
           \<le> roundingError rnd (el_y old + el_height old) +
              max (roundingError rnd
                     (rnd (el_y old + el_height old) - rnd (clientY e - rectTop e)))
                  (roundingError rnd (rnd (el_y old + el_height old) - 20))) \<and>
      ((\<forall>v. rnd v = v) \<longrightarrow>
         (rs_handle r = ''sw'' \<or> rs_handle r = ''nw'' \<longrightarrow>
            el_x new + el_width new = el_x old + el_width old) \<and>
         (rs_handle r = ''ne'' \<or> rs_handle r = ''nw'' \<longrightarrow>
            el_y new + el_height new = el_y old + el_height old))"
  proof (intro ballI impI)
    fix new
    assume "new \<in> set (elements s')" and "el_id new = rs_id r"
    with geometry have n: "el_width new = w" "el_height new = ht" "el_x new = x" "el_y new = y"
      by simp_all
    show "(rs_handle r = ''se'' \<longrightarrow> el_x new = el_x old \<and> el_y new = el_y old) \<and>
      (rs_handle r = ''sw'' \<longrightarrow> el_y new = el_y old) \<and>
      (rs_handle r = ''ne'' \<longrightarrow> el_x new = el_x old) \<and>
      (rs_handle r = ''sw'' \<or> rs_handle r = ''nw'' \<longrightarrow>
         \<bar>el_x new + el_width new - (el_x old + el_width old)\<bar>
           \<le> roundingError rnd (el_x old + el_width old) +
              max (roundingError rnd
                     (rnd (el_x old + el_width old) - rnd (clientX e - rectLeft e)))
                  (roundingError rnd (rnd (el_x old + el_width old) - 30))) \<and>
      (rs_handle r = ''ne'' \<or> rs_handle r = ''nw'' \<longrightarrow>
         \<bar>el_y new + el_height new - (el_y old + el_height old)\<bar>
           \<le> roundingError rnd (el_y old + el_height old) +
              max (roundingError rnd
                     (rnd (el_y old + el_height old) - rnd (clientY e - rectTop e)))
                  (roundingError rnd (rnd (el_y old + el_height old) - 20))) \<and>
      ((\<forall>v. rnd v = v) \<longrightarrow>
         (rs_handle r = ''sw'' \<or> rs_handle r = ''nw'' \<longrightarrow>
            el_x new + el_width new = el_x old + el_width old) \<and>
         (rs_handle r = ''ne'' \<or> rs_handle r = ''nw'' \<longrightarrow>
            el_y new + el_height new = el_y old + el_height old))"
      unfolding n using a exact by (intro conjI)
  qed
  from ids others only anchor show ?thesis by (intro conjI)
qed

text \<open>
  An instance in double arithmetic with the clamp active: the south-west handle of
  a fresh text element (x = 10, width = 100) is dragged to the canvas position 200,
  to the right of its right edge. All numbers are integers and no operation
  rounds: the element becomes 30 wide at x = 80 and its right edge stays at 110.
\<close>

theorem resize_anchor_fixed_up_to_rounding_witness:
  "resizingElement (handleResizeStart ''text-17'' ''sw'' (addElement Text 17 initialState))
     = Some \<lparr>rs_id = ''text-17'', rs_handle = ''sw''\<rparr> \<and>
   findElement ''text-17''
     (elements (handleResizeStart ''text-17'' ''sw'' (addElement Text 17 initialState)))
     = Some (newElement Text 17) \<and>
   dragBranchRounded roundToDouble
     (handleResizeStart ''text-17'' ''sw'' (addElement Text 17 initialState))
     \<lparr>clientX = 230, clientY = 125, rectLeft = 30, rectTop = 25\<rparr> \<noteq> None \<and>
   elements (handleMouseMoveRounded roundToDouble
     \<lparr>clientX = 230, clientY = 125, rectLeft = 30, rectTop = 25\<rparr>
     (handleResizeStart ''text-17'' ''sw'' (addElement Text 17 initialState)))
     = [(newElement Text 17)\<lparr>el_x := 80, el_width := 30, el_height := 90\<rparr>] \<and>
   roundingError roundToDouble (el_x (newElement Text 17) + el_width (newElement Text 17)) +
     max (roundingError roundToDouble
            (roundToDouble (el_x (newElement Text 17) + el_width (newElement Text 17))
               - roundToDouble (230 - 30)))
         (roundingError roundToDouble
            (roundToDouble (el_x (newElement Text 17) + el_width (newElement Text 17)) - 30)) = 0 \<and>
   \<bar>el_x ((newElement Text 17)\<lparr>el_x := 80, el_width := 30, el_height := 90\<rparr>)
       + el_width ((newElement Text 17)\<lparr>el_x := 80, el_width := 30, el_height := 90\<rparr>)
       - (el_x (newElement Text 17) + el_width (newElement Text 17))\<bar> \<le> 0 \<and>
   el_y ((newElement Text 17)\<lparr>el_x := 80, el_width := 30, el_height := 90\<rparr>)
     = el_y (newElement Text 17)"
proof -
  let ?s = "handleResizeStart ''text-17'' ''sw'' (addElement Text 17 initialState)"
  let ?e = "\<lparr>clientX = 230, clientY = 125, rectLeft = 30, rectTop = 25\<rparr>"
  let ?r = "\<lparr>rs_id = ''text-17'', rs_handle = ''sw''\<rparr>"
  let ?new = "(newElement Text 17)\<lparr>el_x := 80, el_width := 30, el_height := 90\<rparr>"
  have h1: "resizingElement ?s = Some ?r"
    by (simp add: handler_defs)
  have h2: "findElement (rs_id ?r) (elements ?s) = Some (newElement Text 17)"
    by (simp add: handler_defs newId_examples)
  have h3: "dragBranchRounded roundToDouble ?s ?e \<noteq> None"
    by (simp add: handler_defs rounded_defs)
  have els: "elements (handleMouseMoveRounded roundToDouble ?e ?s) = [?new]"
    by (simp add: handler_defs newId_examples rounded_defs roundToDouble_integers Let_def)
  have err: "roundingError roundToDouble (el_x (newElement Text 17) + el_width (newElement Text 17)) +
     max (roundingError roundToDouble
            (roundToDouble (el_x (newElement Text 17) + el_width (newElement Text 17))
               - roundToDouble (230 - 30)))
         (roundingError roundToDouble
            (roundToDouble (el_x (newElement Text 17) + el_width (newElement Text 17)) - 30)) = 0"
    by (simp add: newElement_def roundingError_def roundToDouble_integers)
  have id: "el_id ?new = rs_id ?r"
    by (simp add: newElement_def newId_examples)
  from resize_anchor_fixed_up_to_rounding [OF h1 h2 h3 refl]
  have "\<forall>new \<in> set [?new]. el_id new = rs_id ?r \<longrightarrow>
      (rs_handle ?r = ''sw'' \<longrightarrow> el_y new = el_y (newElement Text 17)) \<and>
      (rs_handle ?r = ''sw'' \<or> rs_handle ?r = ''nw'' \<longrightarrow>
         \<bar>el_x new + el_width new - (el_x (newElement Text 17) + el_width (newElement Text 17))\<bar>
           \<le> roundingError roundToDouble (el_x (newElement Text 17) + el_width (newElement Text 17)) +
              max (roundingError roundToDouble
                     (roundToDouble (el_x (newElement Text 17) + el_width (newElement Text 17))
                        - roundToDouble (clientX ?e - rectLeft ?e)))
                  (roundingError roundToDouble
                     (roundToDouble (el_x (newElement Text 17) + el_width (newElement Text 17)) - 30)))"
    unfolding els by blast
  with id have "el_y ?new = el_y (newElement Text 17) \<and>
      \<bar>el_x ?new + el_width ?new - (el_x (newElement Text 17) + el_width (newElement Text 17))\<bar>
        \<le> roundingError roundToDouble (el_x (newElement Text 17) + el_width (newElement Text 17)) +
           max (roundingError roundToDouble
                  (roundToDouble (el_x (newElement Text 17) + el_width (newElement Text 17))
                     - roundToDouble (230 - 30)))
               (roundingError roundToDouble
                  (roundToDouble (el_x (newElement Text 17) + el_width (newElement Text 17)) - 30))"
    by simp
  with err have "el_y ?new = el_y (newElement Text 17) \<and>
      \<bar>el_x ?new + el_width ?new - (el_x (newElement Text 17) + el_width (newElement Text 17))\<bar> \<le> 0"
    by simp
  with h1 h2 h3 els err show ?thesis by simp
qed


section \<open>Numeric inputs\<close>

lemma whitespace_not_digit: "isWhiteSpace c \<Longrightarrow> \<not> isDigit 10 c"
  by (auto simp: isWhiteSpace_def isDigit_def digitOf_def)

lemma not_digit_consts:
  "\<not> isDigit 10 CHR ''+''" "\<not> isDigit 10 CHR ''-''" "\<not> isDigit 10 CHR ''x''"
  "\<not> isDigit 10 CHR ''X''" "\<not> isDigit 10 CHR ''I''"
  by (simp_all add: isDigit_def digitOf_def)

text \<open>A text of white space only, the empty text among them, has no numeric prefix.\<close>

lemma parse_blank:
  assumes "\<forall>c \<in> set v. isWhiteSpace c"
  shows "parseInt v = NaN" and "parseFloat v = NaN"
proof -
  from assms have blank: "dropWhile isWhiteSpace v = []" by simp
  show "parseInt v = NaN" and "parseFloat v = NaN"
    unfolding parseInt_def parseFloat_def blank by (simp_all add: isSign_def)
qed

text \<open>
  A non-empty text of decimal digits is parsed to the double nearest to the number
  it denotes, which is that number when it is below \<open>2^53\<close>.
\<close>

lemma parse_digits_rounded:
  assumes "v \<noteq> []" and "\<forall>c \<in> set v. isDigit 10 c"
  shows "parseInt v = signedDouble False (real (digitsValue 10 0 v))"
    and "parseFloat v = signedDouble False (real (digitsValue 10 0 v))"
proof -
  from assms obtain a w where v: "v = a # w" and a: "isDigit 10 a"
    by (cases v) auto
  have ws: "dropWhile isWhiteSpace v = v"
    using v a whitespace_not_digit by auto
  have sign: "\<not> isSign v"
    using v a not_digit_consts by (auto simp: isSign_def)
  have hex: "take 2 v \<noteq> ''0x''" "take 2 v \<noteq> ''0X''"
    using assms(2) v not_digit_consts by (cases w; auto)+
  have inf: "take 8 v \<noteq> ''Infinity''"
    using v a not_digit_consts by auto
  have tw: "takeWhile (isDigit 10) v = v" "dropWhile (isDigit 10) v = []"
    using assms(2) by simp_all
  have neg: "take (Suc 0) v \<noteq> ''-''"
    using v a not_digit_consts by auto
  have plus: "take (Suc 0) v \<noteq> ''+''"
    using v a not_digit_consts by auto
  show "parseInt v = signedDouble False (real (digitsValue 10 0 v))"
    unfolding parseInt_def ws by (simp add: Let_def sign hex tw neg assms(1))
  show "parseFloat v = signedDouble False (real (digitsValue 10 0 v))"
    unfolding parseFloat_def ws by (simp add: Let_def inf tw neg plus assms(1) isSign_def)
qed

lemma parse_digits:
  assumes "v \<noteq> []" and "\<forall>c \<in> set v. isDigit 10 c" and "digitsValue 10 0 v < 2 ^ 53"
  shows "parseInt v = Num (real (digitsValue 10 0 v))"
    and "parseFloat v = Num (real (digitsValue 10 0 v))"
  using parse_digits_rounded [OF assms(1,2)] signedDouble_nat [OF assms(3), of False]
  by (simp_all add: signedZero_def)

text \<open>
  Other texts: the parsers read the longest numeric prefix, so \<^verbatim>\<open>parseInt\<close> stops
  at a point, an exponent or a unit; the sign of a zero is kept; a numeral that is
  not a double is rounded, to an infinity or to zero when it is out of range.
\<close>

lemmas parser_defs =
  parseInt_def parseFloat_def isSign_def isWhiteSpace_def isDigit_def digitOf_def Let_def

lemma dbl_2_7: "roundToDouble (27 / 10) = 3039929748475085 / 2 ^ 50"
  using roundToDouble_near [of 1 "27 / 10" 6079859496950170] by simp

lemma dbl_2_53_plus_1: "roundToDouble 9007199254740993 = 9007199254740992"
  using roundToDouble_tie_even_large [of 53 9007199254740993 4503599627370496] by simp

lemma parser_examples:
  "parseInt ''12px'' = Num 12"
  "parseInt ''2.7'' = Num 2"
  "parseInt ''1e3'' = Num 1"
  "parseInt ''-3'' = Num (- 3)"
  "parseInt ''abc'' = NaN"
  "parseInt ''-0'' = NegZero"
  "parseFloat ''-0'' = NegZero"
  "parseFloat ''0'' = Num 0"
  "parseFloat ''2.7'' = Num (3039929748475085 / 2 ^ 50)"
  "parseFloat ''4294967295'' = Num 4294967295"
  "parseInt ''4294967296'' = Num 4294967296"
  "parseInt ''9007199254740993'' = Num 9007199254740992"
  by (simp_all add: parser_defs signedDouble_def signedZero_def roundToDouble_integers dbl_2_7
      dbl_2_53_plus_1)

lemma parser_overflow: "parseFloat ''1e309'' = PosInf"
proof -
  have "(2::real) ^ 1024 \<le> 10 ^ 309" by simp
  then have "(2::real) ^ 1024 \<le> roundToDouble (10 ^ 309)"
    by (rule roundToDouble_ge_pow2)
  then have "signedDouble False (10 ^ 309) = PosInf"
    by (simp only: signedDouble_def Let_def signedInfinity_def if_True if_False)
  then show ?thesis
    by (simp add: parser_defs)
qed

lemma parser_underflow: "parseFloat ''1e-400'' = Num 0"
proof -
  have "roundToDouble (1 / 10 ^ 400) = 0"
    by (rule roundToDouble_underflow) simp_all
  then have "signedDouble False (1 / 10 ^ 400) = Num 0"
    by (simp add: signedDouble_def signedZero_def)
  then show ?thesis
    by (simp add: parser_defs)
qed


end
